theory Spec2Isabelle
  imports Main "HOL-Library.Multiset"
begin

section \<open>JavaScript values and plain objects\<close>

text \<open>
  The email notification service (\<^verbatim>\<open>src/connect/notificationServices/email.js\<close>) works on
  dynamically typed data: the fields of a notification's contents, of the raw message, of a
  user and of the settings can hold any JavaScript value. The value universe of this
  development is: \<^verbatim>\<open>undefined\<close>, \<^verbatim>\<open>null\<close>, booleans, integral numbers, \<^verbatim>\<open>NaN\<close>, strings, the
  native functions every plain object inherits from \<^verbatim>\<open>Object.prototype\<close>, and an opaque
  plain object. Strings are byte lists; the code only inspects ASCII characters.
\<close>

datatype jsval =
    JUndefined
  | JNull
  | JBool bool
  | JNum int
  | JNaN
  | JStr string
  | JNative string
  | JObject

text \<open>A plain object: its own enumerable string-keyed properties, in creation order.\<close>

type_synonym obj = "(string \<times> jsval) list"

text \<open>Truthiness, as used by \<^verbatim>\<open>!x\<close>, \<^verbatim>\<open>x && y\<close>, \<^verbatim>\<open>x || y\<close> and \<^verbatim>\<open>x ? a : b\<close>.\<close>

fun js_truthy :: "jsval \<Rightarrow> bool" where
  "js_truthy JUndefined = False"
| "js_truthy JNull = False"
| "js_truthy (JBool b) = b"
| "js_truthy (JNum n) = (n \<noteq> 0)"
| "js_truthy JNaN = False"
| "js_truthy (JStr s) = (s \<noteq> [])"
| "js_truthy (JNative f) = True"
| "js_truthy JObject = True"

text \<open>Decimal digits of a natural number, most significant first.\<close>

fun string_of_nat :: "nat \<Rightarrow> string" where
  "string_of_nat n =
     (if n < 10 then [''0123456789'' ! n]
      else string_of_nat (n div 10) @ [''0123456789'' ! (n mod 10)])"

definition string_of_int :: "int \<Rightarrow> string" where
  "string_of_int i =
     (if i < 0 then CHR ''-'' # string_of_nat (nat (- i)) else string_of_nat (nat i))"

text \<open>
  \<^verbatim>\<open>String(v)\<close>, which is also what a template literal, string concatenation and the
  conversion of a value to a property key do.
\<close>

fun js_to_string :: "jsval \<Rightarrow> string" where
  "js_to_string JUndefined = ''undefined''"
| "js_to_string JNull = ''null''"
| "js_to_string (JBool b) = (if b then ''true'' else ''false'')"
| "js_to_string (JNum n) = string_of_int n"
| "js_to_string JNaN = ''NaN''"
| "js_to_string (JStr s) = s"
| "js_to_string (JNative f) = ''function '' @ f @ ''() { [native code] }''"
| "js_to_string JObject = ''[object Object]''"

text \<open>
  The properties a plain object inherits from \<^verbatim>\<open>Object.prototype\<close>. A read
  \<^verbatim>\<open>o[k]\<close> of a key that is not an own property finds them.
\<close>

definition object_prototype_functions :: "string list" where
  "object_prototype_functions =
     [''constructor'', ''hasOwnProperty'', ''isPrototypeOf'', ''propertyIsEnumerable'',
      ''toLocaleString'', ''toString'', ''valueOf'', ''__defineGetter__'',
      ''__defineSetter__'', ''__lookupGetter__'', ''__lookupSetter__'']"

definition proto_get :: "string \<Rightarrow> jsval" where
  "proto_get k =
     (if k \<in> set object_prototype_functions
      then JNative (if k = ''constructor'' then ''Object'' else k)
      else if k = ''__proto__'' then JObject
      else JUndefined)"

text \<open>The read \<^verbatim>\<open>o[k]\<close> and the write \<^verbatim>\<open>o[k] = v\<close> on a plain object.\<close>

definition obj_get :: "obj \<Rightarrow> string \<Rightarrow> jsval" where
  "obj_get o' k = (case map_of o' k of Some v \<Rightarrow> v | None \<Rightarrow> proto_get k)"

fun obj_set :: "obj \<Rightarrow> string \<Rightarrow> jsval \<Rightarrow> obj" where
  "obj_set [] k v = [(k, v)]"
| "obj_set ((k', v') # kvs) k v =
     (if k' = k then (k, v) # kvs else (k', v') # obj_set kvs k v)"

text \<open>\<^verbatim>\<open>_.assign(target, source)\<close>: every own property of the source is written to the target.\<close>

definition obj_assign :: "obj \<Rightarrow> obj \<Rightarrow> obj" where
  "obj_assign target source = fold (\<lambda>(k, v) t. obj_set t k v) source target"

section \<open>Strings: joining, matching and replacing\<close>

text \<open>\<^verbatim>\<open>values.join(sep)\<close>: \<^verbatim>\<open>undefined\<close> and \<^verbatim>\<open>null\<close> elements become the empty string.\<close>

fun join_elem :: "jsval \<Rightarrow> string" where
  "join_elem JUndefined = []"
| "join_elem JNull = []"
| "join_elem v = js_to_string v"

fun js_join :: "string \<Rightarrow> jsval list \<Rightarrow> string" where
  "js_join sep [] = []"
| "js_join sep [v] = join_elem v"
| "js_join sep (v # w # vs) = join_elem v @ sep @ js_join sep (w # vs)"

definition is_alpha :: "char \<Rightarrow> bool" where
  "is_alpha c = (c \<in> set ''abcdefghijklmnopqrstuvwxyzABCDEFGHIJKLMNOPQRSTUVWXYZ'')"

text \<open>
  \<^verbatim>\<open>term.match(/<[a-zA-Z]+>/g)\<close>: all matches, left to right, each search resuming behind
  the previous match. At a \<^verbatim>\<open><\<close> the greedy letter run must be non-empty and be followed
  by \<^verbatim>\<open>>\<close>; otherwise the search moves on by one character. The JavaScript result
  \<^verbatim>\<open>null\<close> for no match is the empty list here: the caller treats both alike.
\<close>

function match_placeholders :: "string \<Rightarrow> string list" where
  "match_placeholders [] = []"
| "match_placeholders (c # cs) =
     (if c = CHR ''<'' \<and> takeWhile is_alpha cs \<noteq> []
         \<and> dropWhile is_alpha cs \<noteq> [] \<and> hd (dropWhile is_alpha cs) = CHR ''>''
      then (c # takeWhile is_alpha cs @ ''>'') # match_placeholders (tl (dropWhile is_alpha cs))
      else match_placeholders cs)"
  by pat_completeness auto
termination
  by (relation "measure length")
     (auto intro: le_imp_less_Suc order_trans [OF diff_le_self length_dropWhile_le])

text \<open>
  The first occurrence of a pattern in a string: the text that precedes it and the text that follows it.
\<close>

fun find_first :: "string \<Rightarrow> string \<Rightarrow> (string \<times> string) option" where
  "find_first p [] = (if p = [] then Some ([], []) else None)"
| "find_first p (c # cs) =
     (if take (length p) (c # cs) = p then Some ([], drop (length p) (c # cs))
      else map_option (\<lambda>(left, right). (c # left, right)) (find_first p cs))"

text \<open>
  The replacement text of \<^verbatim>\<open>String.prototype.replace\<close> for a string pattern
  (ECMAScript GetSubstitution with no captures): \<^verbatim>\<open>$$\<close> is a dollar sign, \<^verbatim>\<open>$&\<close>
  the matched text, \<^verbatim>\<open>$`\<close> the text that precedes the match, \<^verbatim>\<open>$'\<close> the text that follows it; any
  other dollar sign stands for itself.
\<close>

fun get_substitution :: "string \<Rightarrow> string \<Rightarrow> string \<Rightarrow> string \<Rightarrow> string" where
  "get_substitution m left right [] = []"
| "get_substitution m left right [c] = [c]"
| "get_substitution m left right (c # d # cs) =
     (if c = CHR ''$'' then
        (if d = CHR ''$'' then CHR ''$'' # get_substitution m left right cs
         else if d = CHR ''&'' then m @ get_substitution m left right cs
         else if d = CHR 0x60 then left @ get_substitution m left right cs
         else if d = CHR 0x27 then right @ get_substitution m left right cs
         else c # get_substitution m left right (d # cs))
      else c # get_substitution m left right (d # cs))"

text \<open>\<^verbatim>\<open>s.replace(p, r)\<close> with strings \<^verbatim>\<open>p\<close> and \<^verbatim>\<open>r\<close>: only the first occurrence is replaced.\<close>

definition js_replace :: "string \<Rightarrow> string \<Rightarrow> string \<Rightarrow> string" where
  "js_replace s p r =
     (case find_first p s of
        None \<Rightarrow> s
      | Some (left, right) \<Rightarrow> left @ get_substitution p left right r @ right)"

section \<open>The placeholder resolver\<close>

text \<open>
  The display string that \<^verbatim>\<open>replacePlaceholders\<close> binds to its local \<^verbatim>\<open>replacement\<close>
  (lines 30 to 33): the plain join below three values, otherwise the first two values,
  \<^verbatim>\<open>' and '\<close>, the number \<^verbatim>\<open>total - 3\<close> and \<^verbatim>\<open>'others'\<close>.
\<close>

definition replacement :: "jsval list \<Rightarrow> string" where
  "replacement values =
     (let total = int (length values) in
      if length values < 3 then js_join '', '' values
      else js_join '', '' (take 2 values) @ '' and '' @ js_to_string (JNum (total - 3))
           @ ''others'')"

text \<open>\<^verbatim>\<open>_.map(data, p.slice(1, -1))\<close>: the named property of every item, in order.\<close>

definition placeholder_values :: "obj list \<Rightarrow> string \<Rightarrow> jsval list" where
  "placeholder_values data p = map (\<lambda>item. obj_get item (butlast (tl p))) data"

text \<open>
  One round of the \<^verbatim>\<open>each\<close> loop (lines 29 to 34). The local \<^verbatim>\<open>replacement\<close> is bound
  and never read: the token is replaced by the join of all the values.
\<close>

definition replace_step :: "obj list \<Rightarrow> string \<Rightarrow> string \<Rightarrow> string" where
  "replace_step data p ret =
     (let values = placeholder_values data p;
          unused = replacement values
      in js_replace ret p (js_join '', '' values))"

definition replacePlaceholders :: "string \<Rightarrow> obj list \<Rightarrow> string" where
  "replacePlaceholders term' data = fold (replace_step data) (match_placeholders term') term'"

text \<open>
  The resolver in the words of the specification, for comparison: one pass over the
  template in which every placeholder token is replaced by the join of its field's
  values and every other character is kept. A plain template is one in which every
  \<^verbatim>\<open><\<close> opens a placeholder token; a plain value holds neither \<^verbatim>\<open><\<close> nor \<^verbatim>\<open>$\<close>.
\<close>

function resolve_spec :: "obj list \<Rightarrow> string \<Rightarrow> string" where
  "resolve_spec data [] = []"
| "resolve_spec data (c # cs) =
     (if c = CHR ''<'' \<and> takeWhile is_alpha cs \<noteq> []
         \<and> dropWhile is_alpha cs \<noteq> [] \<and> hd (dropWhile is_alpha cs) = CHR ''>''
      then js_join '', '' (placeholder_values data (c # takeWhile is_alpha cs @ ''>''))
           @ resolve_spec data (tl (dropWhile is_alpha cs))
      else c # resolve_spec data cs)"
  by pat_completeness auto
termination
  by (relation "measure (\<lambda>(data, s). length s)")
     (auto intro: le_imp_less_Suc order_trans [OF diff_le_self length_dropWhile_le])

function plain_template :: "string \<Rightarrow> bool" where
  "plain_template [] = True"
| "plain_template (c # cs) =
     (if c = CHR ''<'' \<and> takeWhile is_alpha cs \<noteq> []
         \<and> dropWhile is_alpha cs \<noteq> [] \<and> hd (dropWhile is_alpha cs) = CHR ''>''
      then plain_template (tl (dropWhile is_alpha cs))
      else c \<noteq> CHR ''<'' \<and> plain_template cs)"
  by pat_completeness auto
termination
  by (relation "measure length")
     (auto intro: le_imp_less_Suc order_trans [OF diff_le_self length_dropWhile_le])

definition plain_value :: "string \<Rightarrow> bool" where
  "plain_value r = (CHR ''<'' \<notin> set r \<and> CHR ''$'' \<notin> set r)"

section \<open>Grouping into objects\<close>

text \<open>
  \<^verbatim>\<open>_.groupBy\<close> builds a plain object whose keys are the string forms of the iteratee's
  results. Enumerating an object (\<^verbatim>\<open>_.keys\<close>, \<^verbatim>\<open>_.values\<close>, \<^verbatim>\<open>forIn\<close>, \<^verbatim>\<open>mapValues\<close>)
  visits the keys that are array indices first, in ascending numeric order, and then the
  other keys in the order of their creation. An array index is the canonical decimal form
  of a number below \<open>2\<^sup>3\<^sup>2 - 1\<close>.
\<close>

definition is_digit :: "char \<Rightarrow> bool" where
  "is_digit c = (c \<in> set ''0123456789'')"

definition digit_value :: "char \<Rightarrow> int" where
  "digit_value c = int (length (takeWhile (\<lambda>d. d \<noteq> c) ''0123456789''))"

definition int_of_digits :: "string \<Rightarrow> int" where
  "int_of_digits ds = fold (\<lambda>c n. 10 * n + digit_value c) ds 0"

definition is_array_index :: "string \<Rightarrow> bool" where
  "is_array_index k =
     (k \<noteq> [] \<and> list_all is_digit k \<and> (hd k \<noteq> CHR ''0'' \<or> k = ''0'')
      \<and> int_of_digits k < 4294967295)"

definition own_keys_order :: "string list \<Rightarrow> string list" where
  "own_keys_order ks =
     sort_key int_of_digits (filter is_array_index ks) @ filter (\<lambda>k. \<not> is_array_index k) ks"

text \<open>The distinct elements of a list, each at the place of its first occurrence.\<close>

definition first_occurrences :: "'a list \<Rightarrow> 'a list" where
  "first_occurrences xs = rev (remdups (rev xs))"

text \<open>
  \<^verbatim>\<open>_.groupBy(xs, f)\<close> as the list of the object's entries in enumeration order; every
  group keeps the order of the input.
\<close>

definition js_groupBy :: "('a \<Rightarrow> string) \<Rightarrow> 'a list \<Rightarrow> (string \<times> 'a list) list" where
  "js_groupBy f xs =
     map (\<lambda>k. (k, filter (\<lambda>x. f x = k) xs)) (own_keys_order (first_occurrences (map f xs)))"

section \<open>Bundle groups, messages and events\<close>

text \<open>
  \<^verbatim>\<open>EVENT_BUNDLES\<close> comes from \<^verbatim>\<open>../events-config\<close>, which is not among the sources; it is
  a parameter: the entries of the object in declaration order. Each definition has a title
  and a subject template, the notification types it owns and an optional \<^verbatim>\<open>groupBy\<close>
  field name.
\<close>

record bundle_def =
  bd_title :: string
  bd_subject :: string
  bd_groupBy :: "string option"
  bd_types :: "string list"

type_synonym bundles = "(string \<times> bundle_def) list"

text \<open>
  The association list stands for an object literal: its keys are distinct, and they are
  identifier names, as the source's own access \<^verbatim>\<open>EVENT_BUNDLES.TOPICS_AND_POSTS\<close> has
  them. Such a key is never an array index, is a one-step path for \<^verbatim>\<open>_.get\<close>, and is not
  empty. A section carries its key as a computed property beside \<^verbatim>\<open>title\<close> and
  \<^verbatim>\<open>notifications\<close>, so a key is neither of these two names.
\<close>

definition is_identifier :: "string \<Rightarrow> bool" where
  "is_identifier k =
     (k \<noteq> [] \<and> \<not> is_digit (hd k)
      \<and> list_all (\<lambda>c. is_alpha c \<or> is_digit c \<or> c = CHR ''_'' \<or> c = CHR ''$'') k)"

definition wf_bundles :: "bundles \<Rightarrow> bool" where
  "wf_bundles B =
     (distinct (map fst B)
      \<and> list_all (\<lambda>k. is_identifier k \<and> k \<noteq> ''title'' \<and> k \<noteq> ''notifications'') (map fst B))"

text \<open>The outbound message; \<^verbatim>\<open>cc\<close> and \<^verbatim>\<open>replyTo\<close> are set on some paths only.\<close>

record 'd message =
  msg_data :: 'd
  msg_recipients :: "jsval list"
  msg_version :: string
  msg_from :: "jsval \<times> string"
  msg_categories :: "string list"
  msg_cc :: "string list option"
  msg_replyTo :: "string option"

text \<open>
  What the classifier and the section builder read of an event is \<^verbatim>\<open>value.data.data\<close>
  only: \<^verbatim>\<open>wrapIndividualNotification\<close> passes them the bare \<^verbatim>\<open>{data: eventMessage}\<close>, the
  scheduler passes the records that \<^verbatim>\<open>handler\<close> gave to \<^verbatim>\<open>addEvent\<close>.
\<close>

record wrapped =
  ev_data :: "obj message"

record scheduled_event = wrapped +
  ev_period :: jsval
  ev_userId :: jsval
  ev_eventType :: string
  ev_reference :: string
  ev_referenceId :: jsval

definition event_contents :: "'z wrapped_scheme \<Rightarrow> obj" where
  "event_contents v = msg_data (ev_data v)"

datatype error = TypeError | ConfigError | Rejected

section \<open>The classifier\<close>

text \<open>\<^verbatim>\<open>_.includes(types, v)\<close> on an array of strings.\<close>

definition js_includes :: "string list \<Rightarrow> jsval \<Rightarrow> bool" where
  "js_includes xs v = (case v of JStr s \<Rightarrow> s \<in> set xs | _ \<Rightarrow> False)"

text \<open>\<^verbatim>\<open>_.get(EVENT_BUNDLES, `${key}.types`)\<close>; \<^verbatim>\<open>_.includes\<close> finds nothing in \<^verbatim>\<open>undefined\<close>.\<close>

definition bundle_types :: "bundles \<Rightarrow> string \<Rightarrow> string list" where
  "bundle_types B key = (case map_of B key of Some d \<Rightarrow> bd_types d | None \<Rightarrow> [])"

definition event_type :: "'z wrapped_scheme \<Rightarrow> jsval" where
  "event_type v = obj_get (event_contents v) ''type''"

definition getEventGroupKey :: "bundles \<Rightarrow> 'z wrapped_scheme \<Rightarrow> string" where
  "getEventGroupKey B v =
     (case find (\<lambda>key. js_includes (bundle_types B key) (event_type v)) (map fst B) of
        None \<Rightarrow> ''DEFAULT''
      | Some key \<Rightarrow> if key = [] then ''DEFAULT'' else key)"

section \<open>The section builder\<close>

record email_section =
  sec_title :: string
  sec_flag :: string
  sec_notifications :: "obj list"

definition make_section :: "bundle_def \<Rightarrow> string \<Rightarrow> 'z wrapped_scheme list \<Rightarrow> email_section" where
  "make_section d key value =
     \<lparr>sec_title = replacePlaceholders (bd_title d) (map event_contents value),
      sec_flag = key,
      sec_notifications = map event_contents value\<rparr>"

text \<open>\<^verbatim>\<open>!EVENT_BUNDLES[key].groupBy\<close> is false for a non-empty field name only.\<close>

definition has_groupBy :: "bundle_def \<Rightarrow> bool" where
  "has_groupBy d = (case bd_groupBy d of None \<Rightarrow> False | Some f \<Rightarrow> f \<noteq> [])"

text \<open>
  The key of the inner \<^verbatim>\<open>groupBy\<close>: the string form of
  \<^verbatim>\<open>n.data.data[EVENT_BUNDLES[key].groupBy]\<close>.
\<close>

definition subgroup_key :: "bundle_def \<Rightarrow> 'z wrapped_scheme \<Rightarrow> string" where
  "subgroup_key d n =
     js_to_string (obj_get (event_contents n)
       (case bd_groupBy d of Some f \<Rightarrow> f | None \<Rightarrow> ''undefined''))"

text \<open>
  The body of the outer \<^verbatim>\<open>forIn\<close> (lines 45 to 62) for one group. Reading \<^verbatim>\<open>groupBy\<close> of
  \<^verbatim>\<open>EVENT_BUNDLES[key]\<close> throws a \<^verbatim>\<open>TypeError\<close> when the object has no such key.
\<close>

definition group_sections ::
  "bundles \<Rightarrow> string \<Rightarrow> 'z wrapped_scheme list \<Rightarrow> error + email_section list" where
  "group_sections B key value =
     (case map_of B key of
        None \<Rightarrow> Inl TypeError
      | Some d \<Rightarrow>
          if \<not> has_groupBy d then Inr [make_section d key value]
          else Inr (map (\<lambda>(groupKey, groupValue). make_section d key groupValue)
                     (js_groupBy (subgroup_key d) value)))"

fun forIn_groups ::
  "bundles \<Rightarrow> (string \<times> 'z wrapped_scheme list) list \<Rightarrow> email_section list \<Rightarrow> error + email_section list"
where
  "forIn_groups B [] sections = Inr sections"
| "forIn_groups B ((key, value) # rest) sections =
     (case group_sections B key value of
        Inl e \<Rightarrow> Inl e
      | Inr new \<Rightarrow> forIn_groups B rest (sections @ new))"

definition getSections :: "bundles \<Rightarrow> 'z wrapped_scheme list \<Rightarrow> error + email_section list" where
  "getSections B projectUserEvents =
     forIn_groups B (js_groupBy (getEventGroupKey B) projectUserEvents) []"

section \<open>Configuration, constants and collaborators\<close>

text \<open>
  \<^verbatim>\<open>../config\<close>, \<^verbatim>\<open>../constants\<close>, \<^verbatim>\<open>../events-config\<close>, \<^verbatim>\<open>../helpers\<close> and the
  \<^verbatim>\<open>jsonwebtoken\<close> package are not among the sources. Their values are the fields of one
  record that every operation takes as a parameter: the configuration strings, the bus
  topics and settings service ids, the table of scheduler periods (a plain object),
  \<^verbatim>\<open>EVENT_BUNDLES\<close>, the two helper functions, the third segment of the signed token as a
  function of the signed body and the secret, and the clock reading \<^verbatim>\<open>new Date().toISOString()\<close>.
\<close>

record environment =
  CONNECT_URL :: string
  DEFAULT_REPLY_EMAIL :: string
  REPLY_EMAIL_FROM :: string
  ENABLE_DEV_MODE :: jsval
  DEV_MODE_EMAIL :: jsval
  ENV :: string
  MENTION_EMAIL :: string
  AUTH_SECRET :: string
  REPLY_EMAIL_PREFIX :: string
  REPLY_EMAIL_DOMAIN :: string
  EMAIL_GENERAL :: string
  EMAIL_BUNDLED :: string
  POST_MENTION :: string
  SETTINGS_EMAIL_SERVICE_ID :: string
  SETTINGS_EMAIL_BUNDLING_SERVICE_ID :: string
  SCHEDULED_EVENT_PERIOD :: obj
  EVENT_BUNDLES :: bundles
  markdownToHTML :: "jsval \<Rightarrow> jsval"
  sanitizeEmail :: "jsval \<Rightarrow> jsval"
  jwt_signature :: "jsval \<times> jsval \<times> jsval \<Rightarrow> string \<Rightarrow> string"
  date_now :: string

record project_bundle =
  pb_id :: jsval
  pb_name :: jsval
  pb_sections :: "email_section list"

record bundle_data =
  bundle_subject :: string
  bundle_connectURL :: string
  bundle_projects :: "project_bundle list"

record bus_event =
  bus_topic :: string
  bus_originator :: string
  bus_timestamp :: string
  bus_mime_type :: string
  bus_payload :: "bundle_data message"

datatype status = COMPLETED | FAILED

datatype log_level = Verbose | Debug | Info | Error

text \<open>
  What an operation does to the outside, in order: the calls to the settings, user, bus
  and scheduler collaborators, the status callback, and the log lines (level and a tag for the call site).
\<close>

datatype effect =
    GetSettings jsval
  | GetUsersById "jsval list"
  | Log log_level string
  | ConsoleLog
  | AddEvent scheduled_event
  | PostEvent bus_event
  | SetEventsStatus "scheduled_event list" status

text \<open>The effects of a run and how it ended: normally, or with the error it threw.\<close>

record run =
  trace :: "effect list"
  outcome :: "error + unit"

section \<open>The batch processor\<close>

text \<open>\<^verbatim>\<open>_.get(projectUserEvents, '[0].data.data.' + field)\<close>; \<^verbatim>\<open>undefined\<close> on an empty list.\<close>

definition first_field :: "scheduled_event list \<Rightarrow> string \<Rightarrow> jsval" where
  "first_field projectUserEvents field =
     (case projectUserEvents of [] \<Rightarrow> JUndefined | e # _ \<Rightarrow> obj_get (event_contents e) field)"

text \<open>
  The \<^verbatim>\<open>mapValues\<close> of lines 91 to 95 over the events grouped by project: one project
  bundle per group, and the first \<^verbatim>\<open>getSections\<close> that throws ends it.
\<close>

fun map_projects ::
  "bundles \<Rightarrow> (string \<times> scheduled_event list) list \<Rightarrow> error + project_bundle list" where
  "map_projects B [] = Inr []"
| "map_projects B ((projectKey, projectUserEvents) # rest) =
     (case getSections B projectUserEvents of
        Inl e \<Rightarrow> Inl e
      | Inr sections \<Rightarrow>
          (case map_projects B rest of
             Inl e \<Rightarrow> Inl e
           | Inr projects \<Rightarrow>
               Inr (\<lparr>pb_id = first_field projectUserEvents ''projectId'',
                     pb_name = first_field projectUserEvents ''projectName'',
                     pb_sections = sections\<rparr> # projects)))"

definition project_key :: "scheduled_event \<Rightarrow> string" where
  "project_key e = js_to_string (obj_get (event_contents e) ''projectId'')"

definition user_key :: "scheduled_event \<Rightarrow> string" where
  "user_key e = js_to_string (ev_userId e)"

text \<open>
  Lines 86 to 120 for one user: the bundle data, the clone of the first event's message
  with the common values written over it, and the bus event that carries it.
\<close>

definition user_bus_event :: "environment \<Rightarrow> scheduled_event list \<Rightarrow> error + bus_event" where
  "user_bus_event env userEvents =
     (case map_projects (EVENT_BUNDLES env) (js_groupBy project_key userEvents) of
        Inl e \<Rightarrow> Inl e
      | Inr projects \<Rightarrow>
          (case userEvents of
             [] \<Rightarrow> Inl TypeError
           | first # _ \<Rightarrow>
               Inr \<lparr>bus_topic = EMAIL_GENERAL env,
                    bus_originator = ''tc-notifications'',
                    bus_timestamp = date_now env,
                    bus_mime_type = ''application/json'',
                    bus_payload =
                      \<lparr>msg_data =
                         \<lparr>bundle_subject = ''Your Topcoder project updates'',
                          bundle_connectURL = CONNECT_URL env,
                          bundle_projects = projects\<rparr>,
                       msg_recipients = msg_recipients (ev_data first),
                       msg_version = ''v3'',
                       msg_from = (JStr (REPLY_EMAIL_FROM env), DEFAULT_REPLY_EMAIL env),
                       msg_categories = msg_categories (ev_data first),
                       msg_cc = Some [],
                       msg_replyTo = Some (DEFAULT_REPLY_EMAIL env)\<rparr>\<rparr>))"

text \<open>
  The promise callbacks of lines 121 to 131: \<^verbatim>\<open>then\<close> when the bus accepted the event,
  \<^verbatim>\<open>catch\<close> when it rejected it. The logger and the status callback are taken not to throw.
\<close>

definition settle :: "bool \<Rightarrow> scheduled_event list \<Rightarrow> effect list" where
  "settle accepted userEvents =
     (if accepted
      then [Log Info ''Successfully sent'', SetEventsStatus userEvents COMPLETED]
      else [Log Error ''Failed to send'', SetEventsStatus userEvents FAILED])"

text \<open>
  The \<^verbatim>\<open>forEach\<close> over the users' groups. The posts happen while the loop runs; the
  callbacks run when the loop is over, here in the order of the posts. A throw inside the
  loop ends it, and the callbacks of the posts already made still run. The result is the
  posts made, the callbacks' effects, and how the loop ended.
\<close>

fun forEach_users ::
  "environment \<Rightarrow> (bus_event \<Rightarrow> bool) \<Rightarrow> scheduled_event list list
     \<Rightarrow> effect list \<times> effect list \<times> (error + unit)" where
  "forEach_users env accepts [] = ([], [], Inr ())"
| "forEach_users env accepts (userEvents # rest) =
     (case user_bus_event env userEvents of
        Inl e \<Rightarrow> ([], [], Inl e)
      | Inr ev \<Rightarrow>
          (case forEach_users env accepts rest of
             (posts, callbacks, out) \<Rightarrow>
               (PostEvent ev # posts, settle (accepts ev) userEvents @ callbacks, out)))"

text \<open>
  \<^verbatim>\<open>accepts\<close> tells of every bus event whether \<^verbatim>\<open>busService.postEvent\<close> resolves for it.
\<close>

definition handleScheduledEvents ::
  "environment \<Rightarrow> (bus_event \<Rightarrow> bool) \<Rightarrow> scheduled_event list \<Rightarrow> run" where
  "handleScheduledEvents env accepts events =
     (if events = [] then \<lparr>trace = [], outcome = Inr ()\<rparr>
      else
        (case forEach_users env accepts (map snd (js_groupBy user_key events)) of
           (posts, callbacks, out) \<Rightarrow> \<lparr>trace = posts @ callbacks, outcome = out\<rparr>))"

section \<open>The handler\<close>

record notification =
  nt_userId :: jsval
  nt_newType :: jsval
  nt_contents :: obj

record user =
  usr_id :: jsval
  usr_email :: jsval
  usr_firstName :: jsval
  usr_lastName :: jsval
  usr_handle :: jsval

text \<open>
  The settings snapshot: \<^verbatim>\<open>settings.notifications[type][serviceId]\<close> and
  \<^verbatim>\<open>settings.services[serviceId]\<close> are plain objects, read for \<^verbatim>\<open>enabled\<close> and
  \<^verbatim>\<open>bundlePeriod\<close>.
\<close>

record settings =
  st_notifications :: "(string \<times> (string \<times> obj) list) list"
  st_services :: "(string \<times> obj) list"

text \<open>\<^verbatim>\<open>parseInt(v, 10)\<close>: leading white space, an optional sign, then the decimal digits.\<close>

definition is_space :: "char \<Rightarrow> bool" where
  "is_space c = (c \<in> set [CHR '' '', CHR 0x09, CHR 0x0A, CHR 0x0B, CHR 0x0C, CHR 0x0D])"

definition parseInt10 :: "jsval \<Rightarrow> jsval" where
  "parseInt10 v =
     (let t = dropWhile is_space (js_to_string v);
          negative = (t \<noteq> [] \<and> hd t = CHR ''-'');
          u = (if t \<noteq> [] \<and> (hd t = CHR ''-'' \<or> hd t = CHR ''+'') then tl t else t);
          ds = takeWhile is_digit u
      in if ds = [] then JNaN
         else JNum (if negative then - int_of_digits ds else int_of_digits ds))"

definition to_lower :: "string \<Rightarrow> string" where
  "to_lower s =
     map (\<lambda>c. case map_of (zip ''ABCDEFGHIJKLMNOPQRSTUVWXYZ'' ''abcdefghijklmnopqrstuvwxyz'') c of
                 Some l \<Rightarrow> l | None \<Rightarrow> c) s"

text \<open>Line 184: \<^verbatim>\<open>notification.newType || topicName\<close>.\<close>

definition notification_type :: "notification \<Rightarrow> string \<Rightarrow> jsval" where
  "notification_type notification topicName =
     (if js_truthy (nt_newType notification) then nt_newType notification else JStr topicName)"

text \<open>The condition of lines 192 to 194.\<close>

definition email_disabled :: "environment \<Rightarrow> settings \<Rightarrow> jsval \<Rightarrow> bool" where
  "email_disabled env settings notificationType =
     (case map_of (st_notifications settings) (js_to_string notificationType) of
        None \<Rightarrow> False
      | Some services \<Rightarrow>
          (case map_of services (SETTINGS_EMAIL_SERVICE_ID env) of
             None \<Rightarrow> False
           | Some s \<Rightarrow> obj_get s ''enabled'' = JStr ''no''))"

text \<open>
  Lines 281 and 282: the two \<^verbatim>\<open>_.get\<close> reads, \<^verbatim>\<open>undefined\<close> where a step of the path is
  missing. The type sits quoted inside the path, so it is one step as long as it holds no
  quote or bracket.
\<close>

definition bundling_enabled_setting :: "environment \<Rightarrow> settings \<Rightarrow> jsval \<Rightarrow> jsval" where
  "bundling_enabled_setting env settings notificationType =
     (case map_of (st_notifications settings) (js_to_string notificationType) of
        None \<Rightarrow> JUndefined
      | Some services \<Rightarrow>
          (case map_of services (SETTINGS_EMAIL_BUNDLING_SERVICE_ID env) of
             None \<Rightarrow> JUndefined
           | Some s \<Rightarrow> obj_get s ''enabled''))"

definition bundle_period_setting :: "environment \<Rightarrow> settings \<Rightarrow> jsval" where
  "bundle_period_setting env settings =
     (case map_of (st_services settings) (SETTINGS_EMAIL_SERVICE_ID env) of
        None \<Rightarrow> JUndefined
      | Some s \<Rightarrow> obj_get s ''bundlePeriod'')"

text \<open>
  Lines 284 to 288: what the two settings resolve to, given whether the event is a
  messaging event.
\<close>

definition resolve_bundling :: "jsval \<Rightarrow> jsval \<Rightarrow> bool \<Rightarrow> jsval \<times> jsval" where
  "resolve_bundling bundlingEnabled bundlePeriod messagingEvent =
     (if \<not> js_truthy bundlingEnabled \<and> \<not> messagingEvent
      then (JStr ''yes'', if \<not> js_truthy bundlePeriod then JStr ''daily'' else bundlePeriod)
      else (bundlingEnabled, bundlePeriod))"

text \<open>Lines 204 to 212: the recipient.\<close>

definition recipient :: "environment \<Rightarrow> user \<Rightarrow> jsval" where
  "recipient env user =
     (if ENABLE_DEV_MODE env = JStr ''true'' then DEV_MODE_EMAIL env else usr_email user)"

text \<open>
  Lines 217 to 227, 236 and 237: the data object, the flag named by the type, and the
  notification's contents assigned over both.
\<close>

definition event_data :: "environment \<Rightarrow> user \<Rightarrow> obj \<Rightarrow> notification \<Rightarrow> jsval \<Rightarrow> obj" where
  "event_data env user messageJSON notification notificationType =
     obj_assign
       (obj_set
          [(''name'', JStr (js_to_string (usr_firstName user) @ '' ''
                            @ js_to_string (usr_lastName user))),
           (''handle'', usr_handle user),
           (''date'', JStr (date_now env)),
           (''projectName'', obj_get (nt_contents notification) ''projectName''),
           (''projectId'', obj_get messageJSON ''projectId''),
           (''authorHandle'', obj_get (nt_contents notification) ''userHandle''),
           (''authorFullName'', obj_get (nt_contents notification) ''userFullName''),
           (''photoURL'', obj_get (nt_contents notification) ''photoURL''),
           (''type'', notificationType)]
          (js_to_string notificationType) (JBool True))
       (nt_contents notification)"

text \<open>Lines 247 to 251: what a messaging event adds to the data.\<close>

definition messaging_data :: "environment \<Rightarrow> obj \<Rightarrow> obj \<Rightarrow> obj" where
  "messaging_data env messageJSON data =
     (let data1 = obj_set data ''topicId'' (parseInt10 (obj_get messageJSON ''topicId''));
          data2 = obj_set data1 ''postId''
                    (if js_truthy (obj_get messageJSON ''postId'')
                     then parseInt10 (obj_get messageJSON ''postId'') else JNull)
      in if js_truthy (obj_get messageJSON ''postContent'')
         then obj_set data2 ''post'' (markdownToHTML env (obj_get messageJSON ''postContent''))
         else data2)"

text \<open>Lines 276 to 278.\<close>

definition with_fileName :: "obj \<Rightarrow> obj \<Rightarrow> obj" where
  "with_fileName messageJSON data =
     (if js_truthy (obj_get messageJSON ''fileName'')
      then obj_set data ''fileName'' (obj_get messageJSON ''fileName'') else data)"

text \<open>
  Lines 212 to 278 for the user found, given whether the event is a messaging event: the
  message, the reference and its id.
\<close>

definition build_message ::
  "environment \<Rightarrow> user \<Rightarrow> obj \<Rightarrow> notification \<Rightarrow> jsval \<Rightarrow> bool
     \<Rightarrow> obj message \<times> string \<times> jsval" where
  "build_message env user messageJSON notification notificationType messagingEvent =
     (let data = event_data env user messageJSON notification notificationType;
          eventMessage =
            \<lparr>msg_data = data,
             msg_recipients = [recipient env user],
             msg_version = ''v3'',
             msg_from = (obj_get (nt_contents notification) ''userHandle'',
                         DEFAULT_REPLY_EMAIL env),
             msg_categories = [to_lower (ENV env @ '':'' @ EMAIL_GENERAL env)],
             msg_cc = None,
             msg_replyTo = None\<rparr>
      in if messagingEvent then
           (let data' = messaging_data env messageJSON data;
                topicId = obj_get data' ''topicId'';
                token = jwt_signature env
                          (parseInt10 (nt_userId notification), topicId,
                           sanitizeEmail env (usr_email user))
                          (AUTH_SECRET env)
            in (eventMessage
                  \<lparr>msg_data := with_fileName messageJSON data',
                   msg_cc := (if notificationType = JStr (POST_MENTION env)
                              then Some [MENTION_EMAIL env] else None),
                   msg_replyTo :=
                     Some (REPLY_EMAIL_PREFIX env @ ''+'' @ js_to_string topicId
                           @ ''/'' @ token @ ''@'' @ REPLY_EMAIL_DOMAIN env)\<rparr>,
                ''topic'', topicId))
         else
           (eventMessage\<lparr>msg_data := with_fileName messageJSON data\<rparr>,
            ''project'', obj_get data ''projectId''))"

text \<open>The log lines of lines 206 to 208 and of lines 266 to 270.\<close>

definition email_log :: "user \<Rightarrow> effect list" where
  "email_log user =
     (if \<not> js_truthy (usr_email user) then [Log Error ''Email not received for user'']
      else [])"

definition messaging_log :: "bool \<Rightarrow> effect list" where
  "messaging_log messagingEvent =
     (if messagingEvent
      then [Log Debug ''body'', Log Debug ''body for generating token'',
            Log Debug ''AUTH_SECRET'', Log Debug ''token'']
      else [])"

text \<open>Lines 157 to 170.\<close>

definition wrapIndividualNotification :: "environment \<Rightarrow> wrapped \<Rightarrow> error + bundle_data" where
  "wrapIndividualNotification env data =
     (case map_of (EVENT_BUNDLES env) (getEventGroupKey (EVENT_BUNDLES env) data) of
        None \<Rightarrow> Inl TypeError
      | Some d \<Rightarrow>
          (case getSections (EVENT_BUNDLES env) [data] of
             Inl e \<Rightarrow> Inl e
           | Inr sections \<Rightarrow>
               Inr \<lparr>bundle_subject = replacePlaceholders (bd_subject d) [event_contents data],
                    bundle_connectURL = CONNECT_URL env,
                    bundle_projects =
                      [\<lparr>pb_id = obj_get (event_contents data) ''projectId'',
                        pb_name = obj_get (event_contents data) ''projectName'',
                        pb_sections = sections\<rparr>]\<rparr>))"

text \<open>
  Lines 292 to 322. A period is recognised when \<^verbatim>\<open>SCHEDULED_EVENT_PERIOD[bundlePeriod]\<close> is
  truthy. The immediate path returns the promise of the post, so a rejection by the bus
  is the handler's own.
\<close>

definition period_recognised :: "environment \<Rightarrow> jsval \<Rightarrow> bool" where
  "period_recognised env bundlePeriod =
     js_truthy (obj_get (SCHEDULED_EVENT_PERIOD env) (js_to_string bundlePeriod))"

definition immediate_event :: "environment \<Rightarrow> obj message \<Rightarrow> bundle_data \<Rightarrow> bus_event" where
  "immediate_event env eventMessage wrappedData =
     \<lparr>bus_topic = EMAIL_GENERAL env,
      bus_originator = ''tc-notifications'',
      bus_timestamp = date_now env,
      bus_mime_type = ''application/json'',
      bus_payload =
        \<lparr>msg_data = wrappedData,
         msg_recipients = msg_recipients eventMessage,
         msg_version = msg_version eventMessage,
         msg_from = msg_from eventMessage,
         msg_categories = msg_categories eventMessage,
         msg_cc = msg_cc eventMessage,
         msg_replyTo = msg_replyTo eventMessage\<rparr>\<rparr>"

definition deliver ::
  "environment \<Rightarrow> (bus_event \<Rightarrow> bool) \<Rightarrow> notification \<Rightarrow> obj message \<Rightarrow> string \<Rightarrow> jsval
     \<Rightarrow> jsval \<Rightarrow> jsval \<Rightarrow> effect list \<times> (error + unit)" where
  "deliver env accepts notification eventMessage reference referenceId bundlingEnabled
     bundlePeriod =
     (if bundlingEnabled = JStr ''yes'' \<and> js_truthy bundlePeriod then
        (if \<not> period_recognised env bundlePeriod then ([], Inl ConfigError)
         else ([AddEvent \<lparr>ev_data = eventMessage,
                          ev_period = bundlePeriod,
                          ev_userId = nt_userId notification,
                          ev_eventType = EMAIL_GENERAL env,
                          ev_reference = reference,
                          ev_referenceId = referenceId\<rparr>], Inr ()))
      else
        (case wrapIndividualNotification env \<lparr>ev_data = eventMessage\<rparr> of
           Inl e \<Rightarrow> ([], Inl e)
         | Inr wrappedData \<Rightarrow>
             (let ev = immediate_event env eventMessage wrappedData
              in if accepts ev
                 then ([ConsoleLog, PostEvent ev, Log Info ''Successfully sent''], Inr ())
                 else ([ConsoleLog, PostEvent ev], Inl Rejected))))"

text \<open>
  The handler. \<^verbatim>\<open>settingsResult\<close> and \<^verbatim>\<open>usersResult\<close> are what the promises of
  \<^verbatim>\<open>getSettings\<close> and \<^verbatim>\<open>getUsersById\<close> settle to (\<open>Inl\<close> for a rejection, which the
  generator rethrows), \<^verbatim>\<open>accepts\<close> tells whether the bus accepts an event. Reading
  \<^verbatim>\<open>email\<close> of a missing first user and reading \<^verbatim>\<open>types\<close> of a missing
  \<^verbatim>\<open>EVENT_BUNDLES.TOPICS_AND_POSTS\<close> throw a \<^verbatim>\<open>TypeError\<close>.
\<close>

definition handler ::
  "environment \<Rightarrow> error + settings \<Rightarrow> error + user list \<Rightarrow> (bus_event \<Rightarrow> bool)
     \<Rightarrow> string \<Rightarrow> obj \<Rightarrow> notification \<Rightarrow> run" where
  "handler env settingsResult usersResult accepts topicName messageJSON notification =
     (let notificationType = notification_type notification topicName;
          t0 = [GetSettings (nt_userId notification)]
      in case settingsResult of
           Inl e \<Rightarrow> \<lparr>trace = t0, outcome = Inl e\<rparr>
         | Inr settings \<Rightarrow>
             if email_disabled env settings notificationType
             then \<lparr>trace = t0 @ [Log Verbose ''Notification not sent due to settings''],
                   outcome = Inr ()\<rparr>
             else
               (let t1 = t0 @ [GetUsersById [nt_userId notification]]
                in case usersResult of
                     Inl e \<Rightarrow> \<lparr>trace = t1, outcome = Inl e\<rparr>
                   | Inr users \<Rightarrow>
                       (case users of
                          [] \<Rightarrow> \<lparr>trace = t1 @ [Log Debug ''got users''], outcome = Inl TypeError\<rparr>
                        | user # _ \<Rightarrow>
                            (let t2 = t1 @ [Log Debug ''got users''] @ email_log user
                             in case map_of (EVENT_BUNDLES env) ''TOPICS_AND_POSTS'' of
                                  None \<Rightarrow> \<lparr>trace = t2, outcome = Inl TypeError\<rparr>
                                | Some topicsAndPosts \<Rightarrow>
                                    (let messagingEvent =
                                           js_includes (bd_types topicsAndPosts) notificationType
                                     in case build_message env user messageJSON notification
                                               notificationType messagingEvent of
                                          (eventMessage, reference, referenceId) \<Rightarrow>
                                     (case resolve_bundling
                                             (bundling_enabled_setting env settings
                                                notificationType)
                                             (bundle_period_setting env settings)
                                             messagingEvent of
                                        (bundlingEnabled, bundlePeriod) \<Rightarrow>
                                     (case deliver env accepts notification eventMessage
                                             reference referenceId bundlingEnabled
                                             bundlePeriod of
                                        (effects, out) \<Rightarrow>
                                          \<lparr>trace = t2 @ messaging_log messagingEvent
                                             @ [Log Debug ''bundlingEnabled=>'',
                                                Log Debug ''bundlePeriod=>'']
                                             @ effects,
                                           outcome = out\<rparr>)))))))"

text \<open>
  Line 187: what \<^verbatim>\<open>handler\<close> returns is the promise that \<^verbatim>\<open>co\<close> makes of the generator.
  The generator's body runs inside that promise, so an error thrown in the body, the
  \<^verbatim>\<open>throw\<close> of line 294 among them, rejects the promise and is not thrown to the caller. A
  call completes either by throwing or by returning a promise that settles to an outcome.
\<close>

datatype completion = Throws error | Returns_promise "error + unit"

definition handler_call ::
  "environment \<Rightarrow> error + settings \<Rightarrow> error + user list \<Rightarrow> (bus_event \<Rightarrow> bool)
     \<Rightarrow> string \<Rightarrow> obj \<Rightarrow> notification \<Rightarrow> completion" where
  "handler_call env settingsResult usersResult accepts topicName messageJSON notification =
     Returns_promise
       (outcome (handler env settingsResult usersResult accepts topicName messageJSON
                   notification))"

section \<open>Notions used in the statements\<close>

text \<open>The two outbound effects: a bus event posted, a scheduled event added.\<close>

fun outbound :: "effect \<Rightarrow> bool" where
  "outbound (PostEvent ev) = True"
| "outbound (AddEvent ev) = True"
| "outbound other = False"

text \<open>The bus events posted and the status calls made, in the order of a trace.\<close>

fun posts_of :: "effect list \<Rightarrow> bus_event list" where
  "posts_of [] = []"
| "posts_of (PostEvent ev # es) = ev # posts_of es"
| "posts_of (other # es) = posts_of es"

fun marks_of :: "effect list \<Rightarrow> (scheduled_event list \<times> status) list" where
  "marks_of [] = []"
| "marks_of (SetEventsStatus evs st # es) = (evs, st) # marks_of es"
| "marks_of (other # es) = marks_of es"

text \<open>An event's classification key names a definition of \<^verbatim>\<open>EVENT_BUNDLES\<close>.\<close>

definition group_defined :: "bundles \<Rightarrow> 'z wrapped_scheme \<Rightarrow> bool" where
  "group_defined B v = (map_of B (getEventGroupKey B v) \<noteq> None)"

text \<open>
  The partition an event belongs to: its classification key, and the sub-group key when
  the group's definition has a \<^verbatim>\<open>groupBy\<close> field.
\<close>

definition section_key :: "bundles \<Rightarrow> 'z wrapped_scheme \<Rightarrow> string \<times> string option" where
  "section_key B v =
     (let key = getEventGroupKey B v
      in case map_of B key of
           None \<Rightarrow> (key, None)
         | Some d \<Rightarrow> (key, if has_groupBy d then Some (subgroup_key d v) else None))"

text \<open>The keys of a grouping in enumeration order, and the sections a defined group yields.\<close>

definition group_keys :: "('a \<Rightarrow> string) \<Rightarrow> 'a list \<Rightarrow> string list" where
  "group_keys f xs = own_keys_order (first_occurrences (map f xs))"

definition partition_section ::
  "bundle_def \<Rightarrow> string \<Rightarrow> 'z wrapped_scheme list \<Rightarrow> email_section" where
  "partition_section d key part =
     \<lparr>sec_title = replacePlaceholders (bd_title d) (map event_contents part),
      sec_flag = key,
      sec_notifications = map event_contents part\<rparr>"

definition expected_sections ::
  "bundles \<Rightarrow> string \<Rightarrow> 'z wrapped_scheme list \<Rightarrow> email_section list" where
  "expected_sections B key value =
     (case map_of B key of
        None \<Rightarrow> []
      | Some d \<Rightarrow>
          if has_groupBy d
          then map (\<lambda>gk. partition_section d key (filter (\<lambda>n. subgroup_key d n = gk) value))
                 (group_keys (subgroup_key d) value)
          else [partition_section d key value])"

section \<open>Example inputs\<close>

text \<open>
  A small configuration with two bundle groups that share the type \<^verbatim>\<open>post.created\<close>, the
  first of them grouped by author; a table of periods that knows \<^verbatim>\<open>daily\<close> only; a user
  whose email is missing; a notification and a raw message; settings snapshots; and due
  events of two users.
\<close>

definition demo_topics :: bundle_def where
  "demo_topics =
     \<lparr>bd_title = ''<authorHandle> posted'', bd_subject = ''New post in <projectName>'',
      bd_groupBy = Some ''authorHandle'', bd_types = [''post.created'', ''topic.created'']\<rparr>"

definition demo_status :: bundle_def where
  "demo_status =
     \<lparr>bd_title = ''Status of <projectName>'', bd_subject = ''Status of <projectName>'',
      bd_groupBy = None, bd_types = [''project.active'', ''post.created'']\<rparr>"

definition demo_bundles :: bundles where
  "demo_bundles = [(''TOPICS_AND_POSTS'', demo_topics), (''PROJECT_STATUS'', demo_status)]"

definition demo_env :: environment where
  "demo_env =
     \<lparr>CONNECT_URL = ''https://connect.example'', DEFAULT_REPLY_EMAIL = ''reply@example.org'',
      REPLY_EMAIL_FROM = ''Connect'', ENABLE_DEV_MODE = JStr ''false'',
      DEV_MODE_EMAIL = JStr ''dev@example.org'', ENV = ''DEV'',
      MENTION_EMAIL = ''mention@example.org'', AUTH_SECRET = ''secret'',
      REPLY_EMAIL_PREFIX = ''reply'', REPLY_EMAIL_DOMAIN = ''example.org'',
      EMAIL_GENERAL = ''email.general'', EMAIL_BUNDLED = ''email.bundled'',
      POST_MENTION = ''post.mention'', SETTINGS_EMAIL_SERVICE_ID = ''email'',
      SETTINGS_EMAIL_BUNDLING_SERVICE_ID = ''emailBundling'',
      SCHEDULED_EVENT_PERIOD = [(''daily'', JStr ''0 7 * * *'')],
      EVENT_BUNDLES = demo_bundles, markdownToHTML = (\<lambda>v. v), sanitizeEmail = (\<lambda>v. v),
      jwt_signature = (\<lambda>body secret. ''signature''), date_now = ''2018-06-01T00:00:00.000Z''\<rparr>"

definition demo_user :: user where
  "demo_user =
     \<lparr>usr_id = JNum 7, usr_email = JUndefined, usr_firstName = JStr ''Ada'',
      usr_lastName = JStr ''Byron'', usr_handle = JStr ''ada''\<rparr>"

definition demo_notification :: notification where
  "demo_notification =
     \<lparr>nt_userId = JNum 7, nt_newType = JUndefined,
      nt_contents = [(''projectName'', JStr ''Apollo''), (''userHandle'', JStr ''bob'')]\<rparr>"

definition demo_message :: obj where
  "demo_message = [(''projectId'', JNum 5), (''topicId'', JStr ''12'')]"

definition settings_none :: settings where
  "settings_none = \<lparr>st_notifications = [], st_services = []\<rparr>"

definition settings_email_off :: settings where
  "settings_email_off =
     \<lparr>st_notifications = [(''project.active'', [(''email'', [(''enabled'', JStr ''no'')])])],
      st_services = []\<rparr>"

definition settings_monthly :: settings where
  "settings_monthly =
     \<lparr>st_notifications = [],
      st_services = [(''email'', [(''bundlePeriod'', JStr ''monthly'')])]\<rparr>"

definition settings_bundling_on :: settings where
  "settings_bundling_on =
     \<lparr>st_notifications =
        [(''project.active'', [(''emailBundling'', [(''enabled'', JStr ''yes'')])])],
      st_services = []\<rparr>"

definition demo_run :: "settings \<Rightarrow> string \<Rightarrow> run" where
  "demo_run settings topicName =
     handler demo_env (Inr settings) (Inr [demo_user]) (\<lambda>ev. True) topicName demo_message
       demo_notification"

definition demo_built :: "string \<Rightarrow> bool \<Rightarrow> obj message \<times> string \<times> jsval" where
  "demo_built topicName messagingEvent =
     build_message demo_env demo_user demo_message demo_notification
       (notification_type demo_notification topicName) messagingEvent"

definition demo_event :: "int \<Rightarrow> string \<Rightarrow> jsval \<Rightarrow> scheduled_event" where
  "demo_event uid type' author =
     \<lparr>ev_data =
        \<lparr>msg_data = [(''projectId'', JNum 5), (''projectName'', JStr ''Apollo''),
                     (''type'', JStr type'), (''authorHandle'', author)],
         msg_recipients = [JStr ''ada@example.org''], msg_version = ''v3'',
         msg_from = (author, ''reply@example.org''),
         msg_categories = [''dev:email.general''], msg_cc = None, msg_replyTo = None\<rparr>,
      ev_period = JStr ''daily'', ev_userId = JNum uid, ev_eventType = ''email.general'',
      ev_reference = ''project'', ev_referenceId = JNum 5\<rparr>"

definition demo_events :: "scheduled_event list" where
  "demo_events =
     [demo_event 7 ''post.created'' (JStr ''bob''),
      demo_event 8 ''project.active'' (JStr ''carol''),
      demo_event 7 ''topic.created'' (JStr ''dave''),
      demo_event 7 ''post.created'' (JStr ''bob'')]"

text \<open>A bus that accepts an event only if its one project has two sections.\<close>

definition demo_accepts :: "bus_event \<Rightarrow> bool" where
  "demo_accepts ev =
     (map (\<lambda>p. length (pb_sections p)) (bundle_projects (msg_data (bus_payload ev))) = [2])"

section \<open>Properties\<close>

declare string_of_nat.simps [simp del]
declare match_placeholders.simps [simp del]
declare resolve_spec.simps [simp del]
declare plain_template.simps [simp del]

subsection \<open>The placeholder resolver\<close>

text \<open>
  Claim C1, at two inputs where the returned string is not the template with each token
  replaced by the joined values. The replacement text goes through the special patterns of
  \<^verbatim>\<open>String.prototype.replace\<close>, so the project name \<^verbatim>\<open>Save $$ now\<close> comes out with one
  dollar sign; and each round replaces the first occurrence of its token in the string as
  rewritten so far, so a value that holds a later token is rewritten in place of that
  token.
\<close>

theorem replacePlaceholders_special_patterns:
  "replacePlaceholders ''Updates for <projectName>'' [[(''projectName'', JStr ''Save $$ now'')]]
     = ''Updates for Save $ now''
   \<and> replacePlaceholders ''<authorHandle> wrote in <projectName>''
         [[(''authorHandle'', JStr ''<projectName>''), (''projectName'', JStr ''Apollo'')]]
     = ''Apollo wrote in <projectName>''"
  by code_simp

text \<open>
  Claim C2, as amended: for three or more values the display string bound to
  \<^verbatim>\<open>replacement\<close> is the first two values joined with a comma and a space, then
  \<^verbatim>\<open>' and '\<close>, then the decimal number \<open>total - 3\<close>, then the literal \<^verbatim>\<open>others\<close> with no
  space before it. For five values the number is 2.
\<close>

theorem replacement_three_or_more:
  assumes "3 \<le> length values"
  shows "replacement values =
           js_join '', '' (take 2 values) @ '' and ''
             @ string_of_int (int (length values) - 3) @ ''others''
         \<and> (length values = 5 \<longrightarrow>
              replacement values = js_join '', '' (take 2 values) @ '' and 2others'')"
  using assms by (simp add: replacement_def Let_def string_of_int_def string_of_nat.simps)

text \<open>Five values: the hypothesis holds and the display string ends in \<^verbatim>\<open>2others\<close>.\<close>

theorem replacement_three_or_more_witness:
  "3 \<le> length [JStr ''a'', JStr ''b'', JStr ''c'', JStr ''d'', JStr ''e'']
   \<and> replacement [JStr ''a'', JStr ''b'', JStr ''c'', JStr ''d'', JStr ''e'']
       = ''a, b and 2others''"
  using replacement_three_or_more
    [of "[JStr ''a'', JStr ''b'', JStr ''c'', JStr ''d'', JStr ''e'']"]
  by (simp add: string_of_int_def string_of_nat.simps)

text \<open>
  Claim C2 as stated leaves the suffix out: for five values the display string is not the
  first two values, \<^verbatim>\<open>' and '\<close> and the number alone.
\<close>

theorem replacement_without_suffix_counterexample:
  "replacement [JStr ''a'', JStr ''b'', JStr ''c'', JStr ''d'', JStr ''e'']
   \<noteq> js_join '', '' (take 2 [JStr ''a'', JStr ''b'', JStr ''c'', JStr ''d'', JStr ''e''])
       @ '' and ''
       @ string_of_int
           (int (length [JStr ''a'', JStr ''b'', JStr ''c'', JStr ''d'', JStr ''e'']) - 3)"
  by (simp add: replacement_def Let_def string_of_int_def string_of_nat.simps)

lemma get_substitution_plain:
  "CHR ''$'' \<notin> set r \<Longrightarrow> get_substitution m a b r = r"
  by (induction m a b r rule: get_substitution.induct) auto

lemma find_first_token:
  "CHR ''<'' \<notin> set pre \<Longrightarrow>
     find_first (CHR ''<'' # w) (pre @ CHR ''<'' # w @ rest) = Some (pre, rest)"
  by (induction pre) auto

lemma js_replace_token:
  assumes "CHR ''<'' \<notin> set pre" and "CHR ''$'' \<notin> set r"
  shows "js_replace (pre @ (CHR ''<'' # w) @ rest) (CHR ''<'' # w) r = pre @ r @ rest"
  using assms by (simp add: js_replace_def find_first_token get_substitution_plain)

lemma token_split:
  assumes "dropWhile is_alpha cs \<noteq> []" and "hd (dropWhile is_alpha cs) = CHR ''>''"
  shows "cs = takeWhile is_alpha cs @ ''>'' @ tl (dropWhile is_alpha cs)"
proof -
  from assms have "dropWhile is_alpha cs = CHR ''>'' # tl (dropWhile is_alpha cs)"
    by (cases "dropWhile is_alpha cs") auto
  then have "takeWhile is_alpha cs @ ''>'' @ tl (dropWhile is_alpha cs)
             = takeWhile is_alpha cs @ dropWhile is_alpha cs" by simp
  then show ?thesis by simp
qed

lemma fold_replace_steps:
  "plain_template t \<Longrightarrow>
   \<forall>p \<in> set (match_placeholders t). plain_value (js_join '', '' (placeholder_values data p)) \<Longrightarrow>
   CHR ''<'' \<notin> set pre \<Longrightarrow>
   fold (replace_step data) (match_placeholders t) (pre @ t) = pre @ resolve_spec data t"
proof (induction t arbitrary: pre rule: match_placeholders.induct)
  case 1
  then show ?case by (simp add: match_placeholders.simps resolve_spec.simps)
next
  case (2 c cs)
  let ?tok = "c = CHR ''<'' \<and> takeWhile is_alpha cs \<noteq> []
              \<and> dropWhile is_alpha cs \<noteq> [] \<and> hd (dropWhile is_alpha cs) = CHR ''>''"
  show ?case
  proof (cases ?tok)
    case True
    let ?w = "takeWhile is_alpha cs @ ''>''"
    let ?rest = "tl (dropWhile is_alpha cs)"
    let ?r = "js_join '', '' (placeholder_values data (c # ?w))"
    from True have c: "c = CHR ''<''" by simp
    from True have cs: "cs = ?w @ ?rest" using token_split [of cs] by simp
    from True have ms: "match_placeholders (c # cs) = (c # ?w) # match_placeholders ?rest"
      by (simp add: match_placeholders.simps)
    from True "2.prems"(1) have pt: "plain_template ?rest"
      by (simp add: plain_template.simps)
    from "2.prems"(2) ms have pv: "plain_value ?r"
      and rest_values: "\<forall>p \<in> set (match_placeholders ?rest).
                          plain_value (js_join '', '' (placeholder_values data p))"
      by simp_all
    have "pre @ c # cs = pre @ (CHR ''<'' # ?w) @ ?rest"
      using c cs by simp
    then have "replace_step data (c # ?w) (pre @ c # cs)
          = js_replace (pre @ (CHR ''<'' # ?w) @ ?rest) (CHR ''<'' # ?w) ?r"
      using c by (simp add: replace_step_def Let_def)
    also have "\<dots> = pre @ ?r @ ?rest"
      using "2.prems"(3) pv by (intro js_replace_token) (simp_all add: plain_value_def)
    finally have step: "replace_step data (c # ?w) (pre @ c # cs) = (pre @ ?r) @ ?rest"
      by simp
    from "2.prems"(3) pv have "CHR ''<'' \<notin> set (pre @ ?r)"
      by (simp add: plain_value_def)
    from "2.IH"(1) [OF True pt rest_values this]
    have "fold (replace_step data) (match_placeholders ?rest) ((pre @ ?r) @ ?rest)
          = (pre @ ?r) @ resolve_spec data ?rest" .
    with step ms True show ?thesis
      by (simp add: resolve_spec.simps)
  next
    case False
    then have ms: "match_placeholders (c # cs) = match_placeholders cs"
      by (simp only: match_placeholders.simps(2) if_not_P if_False)
    from False have "plain_template (c # cs) = (c \<noteq> CHR ''<'' \<and> plain_template cs)"
      by (simp only: plain_template.simps(2) if_not_P if_False)
    with "2.prems"(1) have c: "c \<noteq> CHR ''<''" and pt: "plain_template cs"
      by simp_all
    from False have rs: "resolve_spec data (c # cs) = c # resolve_spec data cs"
      by (simp only: resolve_spec.simps(2) if_not_P if_False)
    from "2.prems"(2) ms
    have vs: "\<forall>p \<in> set (match_placeholders cs).
                plain_value (js_join '', '' (placeholder_values data p))" by simp
    from "2.prems"(3) c have "CHR ''<'' \<notin> set (pre @ [c])" by simp
    from "2.IH"(2) [OF False pt vs this]
    have "fold (replace_step data) (match_placeholders cs) ((pre @ [c]) @ cs)
          = (pre @ [c]) @ resolve_spec data cs" .
    with ms rs show ?thesis by simp
  qed
qed

text \<open>
  For a plain template and plain joined values the resolver of the source is the
  one-pass substitution: every token is replaced by the un-truncated join of its field's
  values, which is the empty string for an empty data list.
\<close>

theorem replacePlaceholders_refines_spec:
  assumes "plain_template t"
      and "\<forall>p \<in> set (match_placeholders t).
             plain_value (js_join '', '' (placeholder_values data p))"
  shows "replacePlaceholders t data = resolve_spec data t"
  using fold_replace_steps [OF assms, of "[]"] by (simp add: replacePlaceholders_def)

subsection \<open>The classifier\<close>

lemma bundle_types_member:
  "distinct (map fst B) \<Longrightarrow> (k, d) \<in> set B \<Longrightarrow> bundle_types B k = bd_types d"
  by (simp add: bundle_types_def)

lemma find_first_satisfying:
  "P k \<Longrightarrow> \<forall>x \<in> set pre. \<not> P x \<Longrightarrow> find P (pre @ k # post) = Some k"
  by (induction pre) auto

lemma find_keys_none:
  assumes "distinct (map fst B)"
      and "\<forall>(k, d) \<in> set B. \<not> js_includes (bd_types d) t"
  shows "find (\<lambda>key. js_includes (bundle_types B key) t) (map fst B) = None"
proof -
  have "\<not> js_includes (bundle_types B k) t" if "k \<in> set (map fst B)" for k
  proof -
    from that obtain d where "(k, d) \<in> set B" by auto
    with assms show ?thesis by (auto simp: bundle_types_member)
  qed
  then show ?thesis by (simp add: find_None_iff)
qed

text \<open>
  Claim C5: for a well-formed \<^verbatim>\<open>EVENT_BUNDLES\<close>, the classifier returns \<^verbatim>\<open>DEFAULT\<close> when no
  definition's types hold the event's type, and otherwise the key of the first definition
  in declaration order whose types hold it, whatever the later definitions own. As a
  function of the table and the event it is total and deterministic.
\<close>

theorem getEventGroupKey_first_owner:
  assumes "wf_bundles B"
  shows "((\<forall>(k, d) \<in> set B. \<not> js_includes (bd_types d) (event_type v))
            \<longrightarrow> getEventGroupKey B v = ''DEFAULT'')
         \<and> (B = pre @ (k, d) # post \<and> js_includes (bd_types d) (event_type v)
             \<and> (\<forall>(k', d') \<in> set pre. \<not> js_includes (bd_types d') (event_type v))
            \<longrightarrow> getEventGroupKey B v = k)"
proof (intro conjI impI)
  assume "\<forall>(k, d) \<in> set B. \<not> js_includes (bd_types d) (event_type v)"
  with assms show "getEventGroupKey B v = ''DEFAULT''"
    by (simp add: getEventGroupKey_def find_keys_none wf_bundles_def)
next
  assume h: "B = pre @ (k, d) # post \<and> js_includes (bd_types d) (event_type v)
             \<and> (\<forall>(k', d') \<in> set pre. \<not> js_includes (bd_types d') (event_type v))"
  let ?P = "\<lambda>key. js_includes (bundle_types B key) (event_type v)"
  from assms have dist: "distinct (map fst B)" by (simp add: wf_bundles_def)
  from h have mem: "(k, d) \<in> set B" by simp
  from assms mem have "is_identifier k" by (auto simp: wf_bundles_def list_all_iff)
  then have nonempty: "k \<noteq> []" by (simp add: is_identifier_def)
  from h have owner: "js_includes (bd_types d) (event_type v)" by simp
  from dist mem have "bundle_types B k = bd_types d" by (rule bundle_types_member)
  with owner have here: "?P k" by simp
  have earlier: "\<not> ?P x" if "x \<in> set (map fst pre)" for x
  proof -
    from that obtain d' where in_pre: "(x, d') \<in> set pre" by auto
    with h have "(x, d') \<in> set B" by simp
    with dist have "bundle_types B x = bd_types d'" by (rule bundle_types_member)
    moreover from h in_pre have "\<not> js_includes (bd_types d') (event_type v)" by auto
    ultimately show ?thesis by simp
  qed
  from h have "map fst B = map fst pre @ k # map fst post" by simp
  with here earlier have "find ?P (map fst B) = Some k"
    by (simp add: find_first_satisfying)
  with nonempty show "getEventGroupKey B v = k"
    by (simp add: getEventGroupKey_def)
qed

text \<open>
  In the example table both groups own \<^verbatim>\<open>post.created\<close>; the first one wins. No group
  owns \<^verbatim>\<open>file.uploaded\<close>.
\<close>

theorem getEventGroupKey_first_owner_witness:
  "wf_bundles demo_bundles
   \<and> getEventGroupKey demo_bundles (demo_event 7 ''post.created'' (JStr ''bob''))
     = ''TOPICS_AND_POSTS''
   \<and> getEventGroupKey demo_bundles (demo_event 7 ''file.uploaded'' (JStr ''bob''))
     = ''DEFAULT''"
proof -
  have wf: "wf_bundles demo_bundles"
    by (simp add: wf_bundles_def demo_bundles_def is_identifier_def is_alpha_def is_digit_def)
  have split: "demo_bundles
               = [] @ (''TOPICS_AND_POSTS'', demo_topics) # [(''PROJECT_STATUS'', demo_status)]"
    by (simp add: demo_bundles_def)
  have owner: "js_includes (bd_types demo_topics)
                 (event_type (demo_event 7 ''post.created'' (JStr ''bob'')))"
    by (simp add: js_includes_def demo_topics_def event_type_def event_contents_def
          demo_event_def obj_get_def)
  have none: "\<forall>(k, d) \<in> set demo_bundles.
                \<not> js_includes (bd_types d)
                     (event_type (demo_event 7 ''file.uploaded'' (JStr ''bob'')))"
    by (simp add: js_includes_def demo_bundles_def demo_topics_def demo_status_def
          event_type_def event_contents_def demo_event_def obj_get_def)
  from getEventGroupKey_first_owner
         [OF wf, of "demo_event 7 ''post.created'' (JStr ''bob'')" "[]" "''TOPICS_AND_POSTS''"
            demo_topics "[(''PROJECT_STATUS'', demo_status)]"]
       split owner
  have "getEventGroupKey demo_bundles (demo_event 7 ''post.created'' (JStr ''bob''))
        = ''TOPICS_AND_POSTS''" by simp
  moreover from getEventGroupKey_first_owner
         [OF wf, of "demo_event 7 ''file.uploaded'' (JStr ''bob'')" "[]"
            "''TOPICS_AND_POSTS''" demo_topics "[(''PROJECT_STATUS'', demo_status)]"]
       none
  have "getEventGroupKey demo_bundles (demo_event 7 ''file.uploaded'' (JStr ''bob''))
        = ''DEFAULT''"
    by blast
  ultimately show ?thesis using wf by simp
qed

subsection \<open>Grouping\<close>

lemma set_own_keys_order: "set (own_keys_order ks) = set ks"
  by (auto simp: own_keys_order_def)

lemma distinct_own_keys_order: "distinct ks \<Longrightarrow> distinct (own_keys_order ks)"
  by (auto simp: own_keys_order_def)

lemma set_group_keys: "set (group_keys f xs) = f ` set xs"
  by (simp add: group_keys_def set_own_keys_order first_occurrences_def)

lemma distinct_group_keys: "distinct (group_keys f xs)"
  by (simp add: group_keys_def distinct_own_keys_order first_occurrences_def)

lemma js_groupBy_keys:
  "js_groupBy f xs = map (\<lambda>k. (k, filter (\<lambda>x. f x = k) xs)) (group_keys f xs)"
  by (simp add: js_groupBy_def group_keys_def)

lemma map_fst_js_groupBy: "map fst (js_groupBy f xs) = group_keys f xs"
  by (simp add: js_groupBy_keys comp_def)

lemma js_groupBy_member:
  "(k, g) \<in> set (js_groupBy f xs) \<longleftrightarrow> k \<in> f ` set xs \<and> g = filter (\<lambda>x. f x = k) xs"
  by (auto simp: js_groupBy_keys set_group_keys)

lemma own_keys_order_single: "own_keys_order [k] = [k]"
  by (simp add: own_keys_order_def)

lemma js_groupBy_single: "js_groupBy f [x] = [(f x, [x])]"
  by (simp add: js_groupBy_def first_occurrences_def own_keys_order_single)

lemma mset_filter_split:
  "k \<notin> set ks \<Longrightarrow>
     mset (filter (\<lambda>x. f x = k) xs) + mset (filter (\<lambda>x. f x \<in> set ks) xs)
     = mset (filter (\<lambda>x. f x = k \<or> f x \<in> set ks) xs)"
  by (induction xs) auto

lemma mset_concat_filters:
  "distinct ks \<Longrightarrow>
     mset (concat (map (\<lambda>k. filter (\<lambda>x. f x = k) xs) ks))
     = mset (filter (\<lambda>x. f x \<in> set ks) xs)"
proof (induction ks)
  case Nil
  then show ?case by simp
next
  case (Cons k ks)
  then have "mset (concat (map (\<lambda>k. filter (\<lambda>x. f x = k) xs) (k # ks)))
             = mset (filter (\<lambda>x. f x = k) xs) + mset (filter (\<lambda>x. f x \<in> set ks) xs)"
    by simp
  also from Cons.prems have "\<dots> = mset (filter (\<lambda>x. f x = k \<or> f x \<in> set ks) xs)"
    by (simp add: mset_filter_split del: mset_filter)
  finally show ?case by simp
qed

lemma mset_js_groupBy: "mset (concat (map snd (js_groupBy f xs))) = mset xs"
proof -
  have "map snd (js_groupBy f xs) = map (\<lambda>k. filter (\<lambda>x. f x = k) xs) (group_keys f xs)"
    by (simp add: js_groupBy_keys comp_def)
  then have "mset (concat (map snd (js_groupBy f xs)))
             = mset (filter (\<lambda>x. f x \<in> set (group_keys f xs)) xs)"
    by (simp add: mset_concat_filters distinct_group_keys del: mset_filter)
  also have "filter (\<lambda>x. f x \<in> set (group_keys f xs)) xs = xs"
    by (simp add: set_group_keys)
  finally show ?thesis .
qed

lemma map_of_js_groupBy:
  "map_of (js_groupBy f xs) k
   = (if k \<in> f ` set xs then Some (filter (\<lambda>x. f x = k) xs) else None)"
proof -
  have "map_of (map (\<lambda>k. (k, F k)) ks) k = (if k \<in> set ks then Some (F k) else None)"
    for F :: "string \<Rightarrow> 'a list" and ks
    by (induction ks) auto
  then show ?thesis by (simp add: js_groupBy_keys set_group_keys)
qed

subsection \<open>The section builder\<close>

lemma group_sections_defined:
  "map_of B key \<noteq> None \<Longrightarrow> group_sections B key value = Inr (expected_sections B key value)"
  by (auto simp: group_sections_def expected_sections_def js_groupBy_keys make_section_def
        partition_section_def comp_def)

lemma forIn_groups_defined:
  "\<forall>(k, g) \<in> set gs. map_of B k \<noteq> None \<Longrightarrow>
     forIn_groups B gs acc
     = Inr (acc @ concat (map (\<lambda>(k, g). expected_sections B k g) gs))"
proof (induction gs arbitrary: acc)
  case Nil
  then show ?case by simp
next
  case (Cons kg gs)
  obtain k g where kg: "kg = (k, g)" by (cases kg)
  with Cons.prems have "map_of B k \<noteq> None" by simp
  then have "group_sections B k g = Inr (expected_sections B k g)"
    by (rule group_sections_defined)
  moreover from Cons.prems have "\<forall>(k, g) \<in> set gs. map_of B k \<noteq> None" by simp
  ultimately show ?case using kg by (simp add: Cons.IH)
qed

lemma getSections_defined:
  assumes "\<forall>e \<in> set evs. group_defined B e"
  shows "getSections B evs
         = Inr (concat (map (\<lambda>(k, g). expected_sections B k g)
                          (js_groupBy (getEventGroupKey B) evs)))"
proof -
  have "\<forall>(k, g) \<in> set (js_groupBy (getEventGroupKey B) evs). map_of B k \<noteq> None"
    using assms by (auto simp: js_groupBy_member group_defined_def)
  then show ?thesis by (simp add: getSections_def forIn_groups_defined)
qed

lemma getSections_single:
  assumes "group_defined B v"
  shows "\<exists>sections. getSections B [v] = Inr sections"
proof -
  from assms obtain d where "map_of B (getEventGroupKey B v) = Some d"
    by (auto simp: group_defined_def)
  then show ?thesis
    by (simp add: getSections_def js_groupBy_single group_sections_def)
qed

lemma flag_expected_sections:
  "s \<in> set (expected_sections B key value) \<Longrightarrow> sec_flag s = key"
  by (auto simp: expected_sections_def partition_section_def split: option.splits if_splits)

lemma mset_notifications_expected:
  assumes "map_of B key \<noteq> None"
  shows "mset (concat (map sec_notifications (expected_sections B key value)))
         = mset (map event_contents value)"
proof -
  from assms obtain d where d: "map_of B key = Some d" by auto
  show ?thesis
  proof (cases "has_groupBy d")
    case False
    with d show ?thesis by (simp add: expected_sections_def partition_section_def)
  next
    case True
    with d have "concat (map sec_notifications (expected_sections B key value))
          = concat (map (map event_contents) (map snd (js_groupBy (subgroup_key d) value)))"
      by (simp add: expected_sections_def partition_section_def js_groupBy_keys comp_def)
    also have "\<dots> = map event_contents (concat (map snd (js_groupBy (subgroup_key d) value)))"
      by (simp add: map_concat)
    finally show ?thesis
      using mset_js_groupBy [of "subgroup_key d" "value"]
      by (metis mset_map)
  qed
qed

lemma mset_notifications_groups:
  "\<forall>(k, g) \<in> set gs. map_of B k \<noteq> None \<Longrightarrow>
     mset (concat (map sec_notifications
                     (concat (map (\<lambda>(k, g). expected_sections B k g) gs))))
     = mset (map event_contents (concat (map snd gs)))"
proof (induction gs)
  case Nil
  then show ?case by simp
next
  case (Cons kg gs)
  obtain k g where kg: "kg = (k, g)" by (cases kg)
  with Cons.prems have "map_of B k \<noteq> None" by simp
  then have "mset (concat (map sec_notifications (expected_sections B k g)))
             = mset (map event_contents g)"
    by (rule mset_notifications_expected)
  moreover from Cons have "mset (concat (map sec_notifications
                     (concat (map (\<lambda>(k, g). expected_sections B k g) gs))))
     = mset (map event_contents (concat (map snd gs)))" by simp
  ultimately show ?case using kg by simp
qed

lemma section_key_defined:
  "map_of B (getEventGroupKey B e) = Some d \<Longrightarrow>
     section_key B e
     = (getEventGroupKey B e, if has_groupBy d then Some (subgroup_key d e) else None)"
  by (simp add: section_key_def Let_def)

lemma expected_section_partition:
  assumes "\<forall>e \<in> set evs. group_defined B e"
      and "k \<in> getEventGroupKey B ` set evs"
      and "s \<in> set (expected_sections B k (filter (\<lambda>e. getEventGroupKey B e = k) evs))"
  shows "\<exists>p \<in> section_key B ` set evs.
           sec_flag s = fst p
           \<and> sec_notifications s
             = map event_contents (filter (\<lambda>e. section_key B e = p) evs)"
proof -
  let ?grp = "filter (\<lambda>e. getEventGroupKey B e = k) evs"
  from assms(1) assms(2) obtain d where d: "map_of B k = Some d"
    by (auto simp: group_defined_def)
  have key: "section_key B e = (k, if has_groupBy d then Some (subgroup_key d e) else None)"
    if "getEventGroupKey B e = k" for e :: "'a wrapped_scheme"
    using that d by (simp add: section_key_defined)
  have other: "fst (section_key B e) = getEventGroupKey B e" for e :: "'a wrapped_scheme"
    by (simp add: section_key_def Let_def split: option.splits)
  show ?thesis
  proof (cases "has_groupBy d")
    case False
    from assms(2) obtain e0 where e0: "e0 \<in> set evs" "getEventGroupKey B e0 = k" by auto
    have same: "(section_key B e = (k, None)) = (getEventGroupKey B e = k)"
      for e :: "'a wrapped_scheme"
      using key [of e] other [of e] False by auto
    from e0 False key have mem: "(k, None) \<in> section_key B ` set evs" by force
    from assms(3) d False
    have "sec_flag s = k" "sec_notifications s = map event_contents ?grp"
      by (simp_all add: expected_sections_def partition_section_def)
    then have "sec_flag s = fst (k, None :: string option)
               \<and> sec_notifications s
                 = map event_contents (filter (\<lambda>e. section_key B e = (k, None)) evs)"
      by (simp add: same)
    with mem show ?thesis by blast
  next
    case True
    with assms(3) d obtain gk where gk: "gk \<in> subgroup_key d ` set ?grp"
      and s: "s = partition_section d k (filter (\<lambda>n. subgroup_key d n = gk) ?grp)"
      by (auto simp: expected_sections_def set_group_keys)
    from gk obtain e0 where e0: "e0 \<in> set evs" "getEventGroupKey B e0 = k"
      "subgroup_key d e0 = gk" by auto
    have same: "(section_key B e = (k, Some gk))
                = (getEventGroupKey B e = k \<and> subgroup_key d e = gk)"
      for e :: "'a wrapped_scheme"
      using key [of e] other [of e] True by auto
    from e0 True key have mem: "(k, Some gk) \<in> section_key B ` set evs" by force
    from s have "sec_flag s = fst (k, Some gk)
                 \<and> sec_notifications s
                   = map event_contents (filter (\<lambda>e. section_key B e = (k, Some gk)) evs)"
      by (simp add: partition_section_def same)
    with mem show ?thesis by blast
  qed
qed

lemma filter_flag_expected:
  "filter (\<lambda>s. sec_flag s = k) (expected_sections B k' g)
   = (if k' = k then expected_sections B k' g else [])"
  by (auto simp: filter_empty_conv filter_id_conv dest: flag_expected_sections)

lemma filter_flag_groups:
  "distinct (map fst gs) \<Longrightarrow>
     filter (\<lambda>s. sec_flag s = k) (concat (map (\<lambda>(k', g). expected_sections B k' g) gs))
     = (case map_of gs k of None \<Rightarrow> [] | Some g \<Rightarrow> expected_sections B k g)"
proof (induction gs)
  case Nil
  then show ?case by simp
next
  case (Cons kg gs)
  obtain k' g where kg: "kg = (k', g)" by (cases kg)
  show ?case
  proof (cases "k' = k")
    case True
    with Cons.prems kg have "map_of gs k = None"
      by (simp add: map_of_eq_None_iff)
    with Cons True kg show ?thesis by (simp add: filter_flag_expected)
  next
    case False
    with Cons kg show ?thesis by (simp add: filter_flag_expected)
  qed
qed

lemma event_has_section:
  assumes "\<forall>e \<in> set evs. group_defined B e"
      and "e \<in> set evs"
  shows "\<exists>s \<in> set (concat (map (\<lambda>(k, g). expected_sections B k g)
                              (js_groupBy (getEventGroupKey B) evs))).
           sec_flag s = fst (section_key B e)
           \<and> sec_notifications s
             = map event_contents (filter (\<lambda>e'. section_key B e' = section_key B e) evs)"
proof -
  let ?k = "getEventGroupKey B e"
  let ?grp = "filter (\<lambda>e'. getEventGroupKey B e' = ?k) evs"
  from assms obtain d where d: "map_of B ?k = Some d"
    by (auto simp: group_defined_def)
  have key: "section_key B e'
             = (?k, if has_groupBy d then Some (subgroup_key d e') else None)"
    if "getEventGroupKey B e' = ?k" for e' :: "'a wrapped_scheme"
    using that d section_key_defined [of B e' d] by simp
  have other: "fst (section_key B e') = getEventGroupKey B e'" for e' :: "'a wrapped_scheme"
    by (simp add: section_key_def Let_def split: option.splits)
  have same: "(section_key B e' = section_key B e)
              = (getEventGroupKey B e' = ?k
                 \<and> (has_groupBy d \<longrightarrow> subgroup_key d e' = subgroup_key d e))"
    for e' :: "'a wrapped_scheme"
    using key [of e'] key [of e] other [of e'] by (cases "getEventGroupKey B e' = ?k") auto
  from assms(2) have group: "(?k, ?grp) \<in> set (js_groupBy (getEventGroupKey B) evs)"
    by (auto simp: js_groupBy_member)
  define s where "s = (if has_groupBy d
                       then partition_section d ?k
                              (filter (\<lambda>n. subgroup_key d n = subgroup_key d e) ?grp)
                       else partition_section d ?k ?grp)"
  from assms(2) have "subgroup_key d e \<in> set (group_keys (subgroup_key d) ?grp)"
    by (auto simp: set_group_keys)
  with d have "s \<in> set (expected_sections B ?k ?grp)"
    by (auto simp: s_def expected_sections_def)
  with group have mem: "s \<in> set (concat (map (\<lambda>(k, g). expected_sections B k g)
                                         (js_groupBy (getEventGroupKey B) evs)))"
    by force
  have "sec_flag s = fst (section_key B e)"
    by (simp add: s_def partition_section_def other)
  moreover have "sec_notifications s
        = map event_contents (filter (\<lambda>e'. section_key B e' = section_key B e) evs)"
    by (auto simp: s_def partition_section_def same intro: arg_cong [where f = "map event_contents"] filter_cong)
  ultimately show ?thesis using mem by blast
qed

lemma demo_events_defined: "\<forall>e \<in> set demo_events. group_defined demo_bundles e"
  by code_simp

text \<open>
  Claim C6: when every event's classification key names a definition of \<^verbatim>\<open>EVENT_BUNDLES\<close>,
  the section builder returns sections whose notifications, taken together, are the
  contents of the input events, each as often as it occurs among them. Every event has a
  section that carries its classification key and holds, in input order, the contents of
  exactly the events with the same (classification key, sub-group key) pair; and every
  section is the section of such a pair that occurs among the events.
\<close>

theorem getSections_partition:
  assumes "\<forall>e \<in> set evs. group_defined B e"
  shows "\<exists>sections. getSections B evs = Inr sections
           \<and> mset (concat (map sec_notifications sections)) = mset (map event_contents evs)
           \<and> (\<forall>e \<in> set evs. \<exists>s \<in> set sections.
                  sec_flag s = fst (section_key B e)
                  \<and> sec_notifications s
                    = map event_contents
                        (filter (\<lambda>e'. section_key B e' = section_key B e) evs))
           \<and> (\<forall>s \<in> set sections. \<exists>p \<in> section_key B ` set evs.
                  sec_flag s = fst p
                  \<and> sec_notifications s
                    = map event_contents (filter (\<lambda>e. section_key B e = p) evs))"
proof -
  let ?groups = "js_groupBy (getEventGroupKey B) evs"
  let ?sections = "concat (map (\<lambda>(k, g). expected_sections B k g) ?groups)"
  have defined: "\<forall>(k, g) \<in> set ?groups. map_of B k \<noteq> None"
    using assms by (auto simp: js_groupBy_member group_defined_def)
  have "mset (concat (map sec_notifications ?sections))
        = mset (map event_contents (concat (map snd ?groups)))"
    using defined by (rule mset_notifications_groups)
  also have "\<dots> = mset (map event_contents evs)"
    using mset_js_groupBy [of "getEventGroupKey B" evs] by (metis mset_map)
  finally have all: "mset (concat (map sec_notifications ?sections))
                     = mset (map event_contents evs)" .
  have "\<exists>p \<in> section_key B ` set evs.
          sec_flag s = fst p
          \<and> sec_notifications s = map event_contents (filter (\<lambda>e. section_key B e = p) evs)"
    if "s \<in> set ?sections" for s
  proof -
    from that obtain k g where "(k, g) \<in> set ?groups" "s \<in> set (expected_sections B k g)"
      by auto
    then have "k \<in> getEventGroupKey B ` set evs"
      and "s \<in> set (expected_sections B k (filter (\<lambda>e. getEventGroupKey B e = k) evs))"
      by (auto simp: js_groupBy_member)
    with assms show ?thesis by (rule expected_section_partition)
  qed
  then have parts: "\<forall>s \<in> set ?sections. \<exists>p \<in> section_key B ` set evs.
          sec_flag s = fst p
          \<and> sec_notifications s = map event_contents (filter (\<lambda>e. section_key B e = p) evs)"
    by blast
  have each: "\<forall>e \<in> set evs. \<exists>s \<in> set ?sections.
          sec_flag s = fst (section_key B e)
          \<and> sec_notifications s
            = map event_contents (filter (\<lambda>e'. section_key B e' = section_key B e) evs)"
    using event_has_section [OF assms] by blast
  from getSections_defined [OF assms] all each parts show ?thesis
    by (intro exI [of _ ?sections] conjI)
qed

text \<open>
  The four example events fall into three sections: the two posts by one author, the
  topic by another author, and the status event.
\<close>

theorem getSections_partition_witness:
  "list_all (group_defined demo_bundles) demo_events
   \<and> (\<exists>sections. getSections demo_bundles demo_events = Inr sections
         \<and> map sec_notifications sections
           = [[event_contents (demo_event 7 ''post.created'' (JStr ''bob'')),
               event_contents (demo_event 7 ''post.created'' (JStr ''bob''))],
              [event_contents (demo_event 7 ''topic.created'' (JStr ''dave''))],
              [event_contents (demo_event 8 ''project.active'' (JStr ''carol''))]]
         \<and> mset (concat (map sec_notifications sections))
           = mset (map event_contents demo_events))"
proof -
  have "map sec_notifications (case getSections demo_bundles demo_events of Inr s \<Rightarrow> s | Inl e \<Rightarrow> [])
        = [[event_contents (demo_event 7 ''post.created'' (JStr ''bob'')),
               event_contents (demo_event 7 ''post.created'' (JStr ''bob''))],
              [event_contents (demo_event 7 ''topic.created'' (JStr ''dave''))],
              [event_contents (demo_event 8 ''project.active'' (JStr ''carol''))]]"
    by code_simp
  moreover have "list_all (group_defined demo_bundles) demo_events"
    using demo_events_defined by (simp add: list_all_iff)
  ultimately show ?thesis
    using getSections_partition [OF demo_events_defined] by auto
qed

text \<open>
  Claim C7, as amended: for a classification key with a definition, the sections that
  carry the key are these. With a \<^verbatim>\<open>groupBy\<close> field: one section for each distinct string
  form of that field's value among the group's events, whose notifications are the
  contents of the group's events with that string form, in input order, and whose title
  is the group's title template resolved against these contents only. Without one: a
  single section for the whole group (none if the group has no events), its title
  resolved against the contents of the whole group.
\<close>

theorem getSections_per_group:
  assumes "\<forall>e \<in> set evs. group_defined B e"
      and "map_of B k = Some d"
  shows "\<exists>sections. getSections B evs = Inr sections
           \<and> (let grp = filter (\<lambda>e. getEventGroupKey B e = k) evs;
                   part = (\<lambda>gk. filter (\<lambda>e. subgroup_key d e = gk) grp)
               in if has_groupBy d
                  then \<exists>gks. distinct gks \<and> set gks = subgroup_key d ` set grp
                         \<and> filter (\<lambda>s. sec_flag s = k) sections
                           = map (\<lambda>gk.
                                \<lparr>sec_title = replacePlaceholders (bd_title d)
                                               (map event_contents (part gk)),
                                 sec_flag = k,
                                 sec_notifications = map event_contents (part gk)\<rparr>) gks
                  else filter (\<lambda>s. sec_flag s = k) sections
                       = (if grp = [] then []
                          else [\<lparr>sec_title = replacePlaceholders (bd_title d)
                                               (map event_contents grp),
                                 sec_flag = k,
                                 sec_notifications = map event_contents grp\<rparr>]))"
proof -
  let ?groups = "js_groupBy (getEventGroupKey B) evs"
  let ?sections = "concat (map (\<lambda>(k, g). expected_sections B k g) ?groups)"
  let ?grp = "filter (\<lambda>e. getEventGroupKey B e = k) evs"
  have "distinct (map fst ?groups)"
    by (simp add: map_fst_js_groupBy distinct_group_keys)
  then have mine: "filter (\<lambda>s. sec_flag s = k) ?sections
             = (if k \<in> getEventGroupKey B ` set evs then expected_sections B k ?grp else [])"
    by (simp add: filter_flag_groups map_of_js_groupBy)
  have empty: "(?grp = []) = (k \<notin> getEventGroupKey B ` set evs)"
    by (auto simp: filter_empty_conv)
  have "if has_groupBy d
        then \<exists>gks. distinct gks \<and> set gks = subgroup_key d ` set ?grp
               \<and> filter (\<lambda>s. sec_flag s = k) ?sections
                 = map (\<lambda>gk.
                      \<lparr>sec_title = replacePlaceholders (bd_title d)
                          (map event_contents (filter (\<lambda>e. subgroup_key d e = gk) ?grp)),
                       sec_flag = k,
                       sec_notifications
                         = map event_contents (filter (\<lambda>e. subgroup_key d e = gk) ?grp)\<rparr>) gks
        else filter (\<lambda>s. sec_flag s = k) ?sections
             = (if ?grp = [] then []
                else [\<lparr>sec_title = replacePlaceholders (bd_title d) (map event_contents ?grp),
                       sec_flag = k,
                       sec_notifications = map event_contents ?grp\<rparr>])"
  proof (cases "has_groupBy d")
    case False
    with assms(2) have "expected_sections B k ?grp
          = [\<lparr>sec_title = replacePlaceholders (bd_title d) (map event_contents ?grp),
              sec_flag = k,
              sec_notifications = map event_contents ?grp\<rparr>]"
      by (simp add: expected_sections_def partition_section_def)
    with mine empty False show ?thesis by simp
  next
    case True
    show ?thesis
    proof (cases "?grp = []")
      case True
      with empty mine have "filter (\<lambda>s. sec_flag s = k) ?sections = []" by simp
      with True \<open>has_groupBy d\<close> show ?thesis by simp
    next
      case False
      from assms(2) \<open>has_groupBy d\<close>
      have "expected_sections B k ?grp
            = map (\<lambda>gk. partition_section d k (filter (\<lambda>e. subgroup_key d e = gk) ?grp))
                (group_keys (subgroup_key d) ?grp)"
        by (simp add: expected_sections_def)
      with False empty mine
      have "filter (\<lambda>s. sec_flag s = k) ?sections
            = map (\<lambda>gk. partition_section d k (filter (\<lambda>e. subgroup_key d e = gk) ?grp))
                (group_keys (subgroup_key d) ?grp)"
        by simp
      moreover have "distinct (group_keys (subgroup_key d) ?grp)"
        by (rule distinct_group_keys)
      moreover have "set (group_keys (subgroup_key d) ?grp) = subgroup_key d ` set ?grp"
        by (rule set_group_keys)
      ultimately show ?thesis
        using \<open>has_groupBy d\<close> unfolding partition_section_def by (simp only: if_True) blast
    qed
  qed
  with getSections_defined [OF assms(1)] show ?thesis
    by (simp only: Let_def) blast
qed

text \<open>
  In the example the events of \<^verbatim>\<open>TOPICS_AND_POSTS\<close> have two authors and yield two sections.
\<close>

theorem getSections_per_group_witness:
  "list_all (group_defined demo_bundles) demo_events
   \<and> map_of demo_bundles ''TOPICS_AND_POSTS'' = Some demo_topics
   \<and> has_groupBy demo_topics
   \<and> getSections demo_bundles demo_events
     = Inr [\<lparr>sec_title = ''bob, bob posted'', sec_flag = ''TOPICS_AND_POSTS'',
             sec_notifications = [event_contents (demo_event 7 ''post.created'' (JStr ''bob'')),
                                  event_contents (demo_event 7 ''post.created'' (JStr ''bob''))]\<rparr>,
            \<lparr>sec_title = ''dave posted'', sec_flag = ''TOPICS_AND_POSTS'',
             sec_notifications = [event_contents (demo_event 7 ''topic.created'' (JStr ''dave''))]\<rparr>,
            \<lparr>sec_title = ''Status of Apollo'', sec_flag = ''PROJECT_STATUS'',
             sec_notifications = [event_contents (demo_event 8 ''project.active'' (JStr ''carol''))]\<rparr>]
   \<and> (\<exists>sections. getSections demo_bundles demo_events = Inr sections
           \<and> (let grp = filter (\<lambda>e. getEventGroupKey demo_bundles e = ''TOPICS_AND_POSTS'')
                          demo_events;
                   part = (\<lambda>gk. filter (\<lambda>e. subgroup_key demo_topics e = gk) grp)
               in if has_groupBy demo_topics
                  then \<exists>gks. distinct gks \<and> set gks = subgroup_key demo_topics ` set grp
                         \<and> filter (\<lambda>s. sec_flag s = ''TOPICS_AND_POSTS'') sections
                           = map (\<lambda>gk.
                                \<lparr>sec_title = replacePlaceholders (bd_title demo_topics)
                                               (map event_contents (part gk)),
                                 sec_flag = ''TOPICS_AND_POSTS'',
                                 sec_notifications = map event_contents (part gk)\<rparr>) gks
                  else filter (\<lambda>s. sec_flag s = ''TOPICS_AND_POSTS'') sections
                       = (if grp = [] then []
                          else [\<lparr>sec_title = replacePlaceholders (bd_title demo_topics)
                                               (map event_contents grp),
                                 sec_flag = ''TOPICS_AND_POSTS'',
                                 sec_notifications = map event_contents grp\<rparr>])))"
proof -
  have d: "map_of demo_bundles ''TOPICS_AND_POSTS'' = Some demo_topics"
    by (simp add: demo_bundles_def demo_topics_def)
  have g: "has_groupBy demo_topics"
    by (simp add: has_groupBy_def demo_topics_def)
  have v: "getSections demo_bundles demo_events
     = Inr [\<lparr>sec_title = ''bob, bob posted'', sec_flag = ''TOPICS_AND_POSTS'',
             sec_notifications = [event_contents (demo_event 7 ''post.created'' (JStr ''bob'')),
                                  event_contents (demo_event 7 ''post.created'' (JStr ''bob''))]\<rparr>,
            \<lparr>sec_title = ''dave posted'', sec_flag = ''TOPICS_AND_POSTS'',
             sec_notifications = [event_contents (demo_event 7 ''topic.created'' (JStr ''dave''))]\<rparr>,
            \<lparr>sec_title = ''Status of Apollo'', sec_flag = ''PROJECT_STATUS'',
             sec_notifications = [event_contents (demo_event 8 ''project.active'' (JStr ''carol''))]\<rparr>]"
    by code_simp
  have h: "list_all (group_defined demo_bundles) demo_events"
    using demo_events_defined by (simp add: list_all_iff)
  from h d g v getSections_per_group [OF demo_events_defined d]
  show ?thesis by (intro conjI)
qed

text \<open>
  Claim C7 as stated counts distinct values: the number 12 and the string \<^verbatim>\<open>'12'\<close> are
  two values of the field, and the two events share one section.
\<close>

theorem getSections_number_and_string_counterexample:
  "obj_get (event_contents (demo_event 7 ''post.created'' (JNum 12))) ''authorHandle''
   \<noteq> obj_get (event_contents (demo_event 7 ''post.created'' (JStr ''12''))) ''authorHandle''
   \<and> getSections demo_bundles
         [demo_event 7 ''post.created'' (JNum 12), demo_event 7 ''post.created'' (JStr ''12'')]
     = Inr [\<lparr>sec_title = ''12, 12 posted'', sec_flag = ''TOPICS_AND_POSTS'',
             sec_notifications =
               [event_contents (demo_event 7 ''post.created'' (JNum 12)),
                event_contents (demo_event 7 ''post.created'' (JStr ''12''))]\<rparr>]"
  by code_simp

subsection \<open>The batch processor\<close>

lemma posts_of_append: "posts_of (xs @ ys) = posts_of xs @ posts_of ys"
  by (induction xs rule: posts_of.induct) auto

lemma marks_of_append: "marks_of (xs @ ys) = marks_of xs @ marks_of ys"
  by (induction xs rule: marks_of.induct) auto

lemma posts_of_settle: "posts_of (settle b evs) = []"
  by (simp add: settle_def)

lemma marks_of_settle:
  "marks_of (settle b evs) = [(evs, if b then COMPLETED else FAILED)]"
  by (simp add: settle_def)

lemma map_projects_defined:
  "\<forall>(k, g) \<in> set gs. \<forall>e \<in> set g. group_defined B e \<Longrightarrow>
     \<exists>projects. map_projects B gs = Inr projects"
proof (induction gs)
  case Nil
  then show ?case by simp
next
  case (Cons kg gs)
  obtain k g where kg: "kg = (k, g)" by (cases kg)
  with Cons.prems have "\<forall>e \<in> set g. group_defined B e" by simp
  from getSections_defined [OF this] obtain sections
    where "getSections B g = Inr sections" by blast
  moreover from Cons obtain projects where "map_projects B gs = Inr projects" by auto
  ultimately show ?case using kg by simp
qed

lemma user_bus_event_defined:
  assumes "userEvents \<noteq> []"
      and "\<forall>e \<in> set userEvents. group_defined (EVENT_BUNDLES env) e"
  shows "\<exists>ev. user_bus_event env userEvents = Inr ev"
proof -
  have "\<forall>(k, g) \<in> set (js_groupBy project_key userEvents).
          \<forall>e \<in> set g. group_defined (EVENT_BUNDLES env) e"
    using assms(2) by (auto simp: js_groupBy_member)
  from map_projects_defined [OF this] obtain projects
    where "map_projects (EVENT_BUNDLES env) (js_groupBy project_key userEvents) = Inr projects"
    by blast
  with assms(1) show ?thesis
    by (cases userEvents) (simp_all add: user_bus_event_def)
qed

lemma forEach_users_defined:
  "\<forall>userEvents \<in> set batches. user_bus_event env userEvents = Inr (message userEvents) \<Longrightarrow>
     forEach_users env accepts batches
     = (map (\<lambda>userEvents. PostEvent (message userEvents)) batches,
        concat (map (\<lambda>userEvents. settle (accepts (message userEvents)) userEvents) batches),
        Inr ())"
  by (induction batches) auto

lemma posts_of_posts: "posts_of (map (\<lambda>x. PostEvent (f x)) xs) = map f xs"
  by (induction xs) auto

lemma marks_of_posts: "marks_of (map (\<lambda>x. PostEvent (f x)) xs) = []"
  by (induction xs) auto

lemma posts_of_settles: "posts_of (concat (map (\<lambda>x. settle (b x) (g x)) xs)) = []"
  by (induction xs) (auto simp: posts_of_append posts_of_settle)

lemma marks_of_settles:
  "marks_of (concat (map (\<lambda>x. settle (b x) (g x)) xs))
   = map (\<lambda>x. (g x, if b x then COMPLETED else FAILED)) xs"
  by (induction xs) (auto simp: marks_of_append marks_of_settle)

lemma demo_env_defined: "\<forall>e \<in> set demo_events. group_defined (EVENT_BUNDLES demo_env) e"
  by code_simp

lemma handleScheduledEvents_defined:
  assumes "\<forall>e \<in> set events. group_defined (EVENT_BUNDLES env) e"
  shows "\<exists>users message.
           distinct users \<and> set users = user_key ` set events
           \<and> (\<forall>u \<in> set users.
                  user_bus_event env (filter (\<lambda>e. user_key e = u) events) = Inr (message u))
           \<and> posts_of (trace (handleScheduledEvents env accepts events)) = map message users
           \<and> marks_of (trace (handleScheduledEvents env accepts events))
             = map (\<lambda>u. (filter (\<lambda>e. user_key e = u) events,
                          if accepts (message u) then COMPLETED else FAILED)) users
           \<and> outcome (handleScheduledEvents env accepts events) = Inr ()"
proof (cases "events = []")
  case True
  then have "distinct ([] :: string list) \<and> set [] = user_key ` set events
      \<and> (\<forall>u \<in> set ([] :: string list).
            user_bus_event env (filter (\<lambda>e. user_key e = u) events) = Inr (undefined u))
      \<and> posts_of (trace (handleScheduledEvents env accepts events)) = map undefined []
      \<and> marks_of (trace (handleScheduledEvents env accepts events))
        = map (\<lambda>u. (filter (\<lambda>e. user_key e = u) events,
                     if accepts (undefined u) then COMPLETED else FAILED)) []
      \<and> outcome (handleScheduledEvents env accepts events) = Inr ()"
    by (simp add: handleScheduledEvents_def)
  then show ?thesis by blast
next
  case False
  let ?batch = "\<lambda>u. filter (\<lambda>e. user_key e = u) events"
  let ?users = "group_keys user_key events"
  have batches: "map snd (js_groupBy user_key events) = map ?batch ?users"
    by (simp add: js_groupBy_keys comp_def)
  have "\<exists>ev. user_bus_event env (?batch u) = Inr ev" if "u \<in> set ?users" for u
  proof -
    from that have "?batch u \<noteq> []" by (auto simp: set_group_keys filter_empty_conv)
    moreover from assms have "\<forall>e \<in> set (?batch u). group_defined (EVENT_BUNDLES env) e"
      by simp
    ultimately show ?thesis by (rule user_bus_event_defined)
  qed
  then obtain message where message:
    "\<forall>u \<in> set ?users. user_bus_event env (?batch u) = Inr (message u)"
    by metis
  define of_batch where "of_batch userEvents = message (user_key (hd userEvents))"
    for userEvents :: "scheduled_event list"
  have of_batch: "of_batch (?batch u) = message u" if "u \<in> set ?users" for u
  proof -
    from that have "?batch u \<noteq> []" by (auto simp: set_group_keys filter_empty_conv)
    then have "hd (?batch u) \<in> set (?batch u)" by (rule hd_in_set)
    then have "user_key (hd (?batch u)) = u" by simp
    then show ?thesis by (simp add: of_batch_def)
  qed
  have "\<forall>userEvents \<in> set (map ?batch ?users).
          user_bus_event env userEvents = Inr (of_batch userEvents)"
    using message of_batch by auto
  from forEach_users_defined [OF this, of accepts]
  have "forEach_users env accepts (map ?batch ?users)
        = (map (\<lambda>u. PostEvent (of_batch (?batch u))) ?users,
           concat (map (\<lambda>u. settle (accepts (of_batch (?batch u))) (?batch u)) ?users),
           Inr ())"
    by (simp add: comp_def)
  also have "map (\<lambda>u. PostEvent (of_batch (?batch u))) ?users
             = map (\<lambda>u. PostEvent (message u)) ?users"
    using of_batch by simp
  also have "concat (map (\<lambda>u. settle (accepts (of_batch (?batch u))) (?batch u)) ?users)
             = concat (map (\<lambda>u. settle (accepts (message u)) (?batch u)) ?users)"
    using of_batch by (auto intro: arg_cong [where f = concat])
  finally have run: "handleScheduledEvents env accepts events
        = \<lparr>trace = map (\<lambda>u. PostEvent (message u)) ?users
                    @ concat (map (\<lambda>u. settle (accepts (message u)) (?batch u)) ?users),
           outcome = Inr ()\<rparr>"
    using False by (simp add: handleScheduledEvents_def batches)
  have "distinct ?users \<and> set ?users = user_key ` set events
      \<and> (\<forall>u \<in> set ?users. user_bus_event env (?batch u) = Inr (message u))
      \<and> posts_of (trace (handleScheduledEvents env accepts events)) = map message ?users
      \<and> marks_of (trace (handleScheduledEvents env accepts events))
        = map (\<lambda>u. (?batch u, if accepts (message u) then COMPLETED else FAILED)) ?users
      \<and> outcome (handleScheduledEvents env accepts events) = Inr ()"
    using message
    by (simp add: run distinct_group_keys set_group_keys posts_of_append marks_of_append
          posts_of_posts marks_of_posts posts_of_settles marks_of_settles)
  then show ?thesis by blast
qed

lemma group_sections_error: "group_sections B k v = Inl e \<Longrightarrow> e = TypeError"
  by (auto simp: group_sections_def split: option.splits if_splits)

lemma forIn_groups_error: "forIn_groups B gs acc = Inl e \<Longrightarrow> e = TypeError"
  by (induction gs arbitrary: acc) (auto split: sum.splits dest: group_sections_error)

lemma getSections_error: "getSections B evs = Inl e \<Longrightarrow> e = TypeError"
  unfolding getSections_def by (rule forIn_groups_error)

lemma map_projects_error: "map_projects B gs = Inl e \<Longrightarrow> e = TypeError"
  by (induction gs) (auto split: sum.splits dest: getSections_error)

lemma user_bus_event_error: "user_bus_event env userEvents = Inl e \<Longrightarrow> e = TypeError"
  by (auto simp: user_bus_event_def split: sum.splits list.splits dest: map_projects_error)

lemma forEach_users_error:
  "forEach_users env accepts batches = (posts, callbacks, Inl e) \<Longrightarrow> e = TypeError"
  by (induction batches arbitrary: posts callbacks)
     (auto split: sum.splits prod.splits dest: user_bus_event_error)

lemma handleScheduledEvents_error:
  "outcome (handleScheduledEvents env accepts events) = Inl e \<Longrightarrow> e = TypeError"
  by (auto simp: handleScheduledEvents_def split: if_splits prod.splits
        dest: forEach_users_error)

text \<open>
  Claim C3: the batch processor never ends with the bus's rejection, whatever the bus
  does. When every due event's classification key names a definition of
  \<^verbatim>\<open>EVENT_BUNDLES\<close>, it posts exactly one bus event per user (per distinct \<^verbatim>\<open>userId\<close> key),
  built from all the events of that user, and makes exactly one status call per user: for
  all the events of that user, in input order, with \<^verbatim>\<open>COMPLETED\<close> if the bus accepted that
  user's event and \<^verbatim>\<open>FAILED\<close> if it rejected it; and the run ends normally.
\<close>

theorem handleScheduledEvents_batches:
  "outcome (handleScheduledEvents env accepts events) \<noteq> Inl Rejected
   \<and> ((\<forall>e \<in> set events. group_defined (EVENT_BUNDLES env) e) \<longrightarrow>
        (\<exists>users message.
           distinct users \<and> set users = user_key ` set events
           \<and> (\<forall>u \<in> set users.
                  user_bus_event env (filter (\<lambda>e. user_key e = u) events) = Inr (message u))
           \<and> posts_of (trace (handleScheduledEvents env accepts events)) = map message users
           \<and> marks_of (trace (handleScheduledEvents env accepts events))
             = map (\<lambda>u. (filter (\<lambda>e. user_key e = u) events,
                          if accepts (message u) then COMPLETED else FAILED)) users
           \<and> outcome (handleScheduledEvents env accepts events) = Inr ()))"
proof (intro conjI impI)
  show "outcome (handleScheduledEvents env accepts events) \<noteq> Inl Rejected"
    using handleScheduledEvents_error [of env accepts events Rejected] by auto
next
  assume "\<forall>e \<in> set events. group_defined (EVENT_BUNDLES env) e"
  then show "\<exists>users message.
           distinct users \<and> set users = user_key ` set events
           \<and> (\<forall>u \<in> set users.
                  user_bus_event env (filter (\<lambda>e. user_key e = u) events) = Inr (message u))
           \<and> posts_of (trace (handleScheduledEvents env accepts events)) = map message users
           \<and> marks_of (trace (handleScheduledEvents env accepts events))
             = map (\<lambda>u. (filter (\<lambda>e. user_key e = u) events,
                          if accepts (message u) then COMPLETED else FAILED)) users
           \<and> outcome (handleScheduledEvents env accepts events) = Inr ()"
    by (rule handleScheduledEvents_defined)
qed

text \<open>
  In the example the bus accepts the event of user 7 and rejects the event of user 8: the
  three events of user 7 are marked \<^verbatim>\<open>COMPLETED\<close> together, the event of user 8 is marked
  \<^verbatim>\<open>FAILED\<close>, and nothing is thrown.
\<close>

theorem handleScheduledEvents_batches_witness:
  "list_all (group_defined (EVENT_BUNDLES demo_env)) demo_events
   \<and> marks_of (trace (handleScheduledEvents demo_env demo_accepts demo_events))
     = [([demo_event 7 ''post.created'' (JStr ''bob''), demo_event 7 ''topic.created'' (JStr ''dave''),
          demo_event 7 ''post.created'' (JStr ''bob'')], COMPLETED),
        ([demo_event 8 ''project.active'' (JStr ''carol'')], FAILED)]
   \<and> (\<exists>users message.
           distinct users \<and> set users = user_key ` set demo_events
           \<and> (\<forall>u \<in> set users.
                  user_bus_event demo_env (filter (\<lambda>e. user_key e = u) demo_events)
                  = Inr (message u))
           \<and> posts_of (trace (handleScheduledEvents demo_env demo_accepts demo_events))
             = map message users
           \<and> marks_of (trace (handleScheduledEvents demo_env demo_accepts demo_events))
             = map (\<lambda>u. (filter (\<lambda>e. user_key e = u) demo_events,
                          if demo_accepts (message u) then COMPLETED else FAILED)) users
           \<and> outcome (handleScheduledEvents demo_env demo_accepts demo_events) = Inr ())"
proof -
  have v: "marks_of (trace (handleScheduledEvents demo_env demo_accepts demo_events))
     = [([demo_event 7 ''post.created'' (JStr ''bob''), demo_event 7 ''topic.created'' (JStr ''dave''),
          demo_event 7 ''post.created'' (JStr ''bob'')], COMPLETED),
        ([demo_event 8 ''project.active'' (JStr ''carol'')], FAILED)]"
    by code_simp
  have h: "list_all (group_defined (EVENT_BUNDLES demo_env)) demo_events"
    using demo_env_defined by (simp add: list_all_iff)
  from h v handleScheduledEvents_batches
              [of demo_env demo_accepts demo_events, THEN conjunct2, THEN mp,
               OF demo_env_defined]
  show ?thesis by (intro conjI)
qed

subsection \<open>The handler\<close>

lemma wrapIndividualNotification_defined:
  assumes "group_defined (EVENT_BUNDLES env) v"
  shows "\<exists>w. wrapIndividualNotification env v = Inr w"
proof -
  from assms obtain d where d: "map_of (EVENT_BUNDLES env) (getEventGroupKey (EVENT_BUNDLES env) v) = Some d"
    by (auto simp: group_defined_def)
  from getSections_single [OF assms] obtain sections
    where "getSections (EVENT_BUNDLES env) [v] = Inr sections" ..
  with d show ?thesis by (simp add: wrapIndividualNotification_def)
qed

lemma outbound_email_log: "filter outbound (email_log user) = []"
  by (simp add: email_log_def)

lemma outbound_messaging_log: "filter outbound (messaging_log b) = []"
  by (simp add: messaging_log_def)

lemma handler_delivers:
  assumes "\<not> email_disabled env settings (notification_type notification topicName)"
      and "map_of (EVENT_BUNDLES env) ''TOPICS_AND_POSTS'' = Some tp"
      and "build_message env user messageJSON notification
             (notification_type notification topicName)
             (js_includes (bd_types tp) (notification_type notification topicName))
           = (m, reference, referenceId)"
      and "resolve_bundling
             (bundling_enabled_setting env settings (notification_type notification topicName))
             (bundle_period_setting env settings)
             (js_includes (bd_types tp) (notification_type notification topicName))
           = (bundlingEnabled, bundlePeriod)"
      and "deliver env accepts notification m reference referenceId bundlingEnabled bundlePeriod
           = (effects, out)"
  shows "handler env (Inr settings) (Inr (user # others)) accepts topicName messageJSON
           notification
         = \<lparr>trace = [GetSettings (nt_userId notification),
                      GetUsersById [nt_userId notification], Log Debug ''got users'']
                     @ email_log user
                     @ messaging_log
                         (js_includes (bd_types tp) (notification_type notification topicName))
                     @ [Log Debug ''bundlingEnabled=>'', Log Debug ''bundlePeriod=>'']
                     @ effects,
            outcome = out\<rparr>"
  using assms by (simp add: handler_def Let_def)

lemma handler_delivers_outbound:
  assumes "\<not> email_disabled env settings (notification_type notification topicName)"
      and "map_of (EVENT_BUNDLES env) ''TOPICS_AND_POSTS'' = Some tp"
      and "build_message env user messageJSON notification
             (notification_type notification topicName)
             (js_includes (bd_types tp) (notification_type notification topicName))
           = (m, reference, referenceId)"
      and "resolve_bundling
             (bundling_enabled_setting env settings (notification_type notification topicName))
             (bundle_period_setting env settings)
             (js_includes (bd_types tp) (notification_type notification topicName))
           = (bundlingEnabled, bundlePeriod)"
      and "deliver env accepts notification m reference referenceId bundlingEnabled bundlePeriod
           = (effects, out)"
  shows "filter outbound
           (trace (handler env (Inr settings) (Inr (user # others)) accepts topicName
                     messageJSON notification))
         = filter outbound effects
         \<and> outcome (handler env (Inr settings) (Inr (user # others)) accepts topicName
                       messageJSON notification) = out
         \<and> set (email_log user)
             \<subseteq> set (trace (handler env (Inr settings) (Inr (user # others)) accepts
                                topicName messageJSON notification))"
  by (auto simp: handler_delivers [OF assms] outbound_email_log outbound_messaging_log)

lemma deliver_immediate:
  assumes "\<not> (bundlingEnabled = JStr ''yes'' \<and> js_truthy bundlePeriod)"
      and "wrapIndividualNotification env \<lparr>ev_data = m\<rparr> = Inr w"
  shows "deliver env accepts notification m reference referenceId bundlingEnabled bundlePeriod
         = (if accepts (immediate_event env m w)
            then ([ConsoleLog, PostEvent (immediate_event env m w),
                   Log Info ''Successfully sent''], Inr ())
            else ([ConsoleLog, PostEvent (immediate_event env m w)], Inl Rejected))"
  using assms by (auto simp: deliver_def Let_def)

lemma demo_tp: "map_of (EVENT_BUNDLES demo_env) ''TOPICS_AND_POSTS'' = Some demo_topics"
  by (simp add: demo_env_def demo_bundles_def demo_topics_def)

text \<open>
  Claim C4: for a user found, email not disabled and the bundling setting of the event's
  type unset. If the event is not a messaging event, no bundle period is set and
  \<^verbatim>\<open>daily\<close> is a recognised period, the handler adds one scheduled event with period
  \<^verbatim>\<open>daily\<close>, posts nothing and ends normally. If the event is a messaging event (and its
  classification key names a definition), the handler adds no scheduled event and posts
  one bus event at once; it ends as the post does.
\<close>

theorem handler_default_bundling:
  assumes "\<not> email_disabled env settings (notification_type notification topicName)"
      and "map_of (EVENT_BUNDLES env) ''TOPICS_AND_POSTS'' = Some tp"
      and "build_message env user messageJSON notification
             (notification_type notification topicName)
             (js_includes (bd_types tp) (notification_type notification topicName))
           = (m, reference, referenceId)"
      and "\<not> js_truthy (bundling_enabled_setting env settings
                           (notification_type notification topicName))"
  shows "(\<not> js_includes (bd_types tp) (notification_type notification topicName)
          \<and> \<not> js_truthy (bundle_period_setting env settings)
          \<and> period_recognised env (JStr ''daily'')
          \<longrightarrow> outcome (handler env (Inr settings) (Inr (user # others)) accepts topicName
                         messageJSON notification) = Inr ()
              \<and> filter outbound
                  (trace (handler env (Inr settings) (Inr (user # others)) accepts topicName
                            messageJSON notification))
                = [AddEvent \<lparr>ev_data = m, ev_period = JStr ''daily'',
                             ev_userId = nt_userId notification,
                             ev_eventType = EMAIL_GENERAL env,
                             ev_reference = reference, ev_referenceId = referenceId\<rparr>])
         \<and> (js_includes (bd_types tp) (notification_type notification topicName)
            \<and> group_defined (EVENT_BUNDLES env) \<lparr>ev_data = m\<rparr>
          \<longrightarrow> (\<exists>w. wrapIndividualNotification env \<lparr>ev_data = m\<rparr> = Inr w
                   \<and> filter outbound
                       (trace (handler env (Inr settings) (Inr (user # others)) accepts
                                 topicName messageJSON notification))
                     = [PostEvent (immediate_event env m w)]
                   \<and> outcome (handler env (Inr settings) (Inr (user # others)) accepts
                                 topicName messageJSON notification)
                     = (if accepts (immediate_event env m w) then Inr () else Inl Rejected)))"
proof (intro conjI impI)
  let ?nt = "notification_type notification topicName"
  let ?run = "handler env (Inr settings) (Inr (user # others)) accepts topicName messageJSON
                notification"
  assume h: "\<not> js_includes (bd_types tp) ?nt \<and> \<not> js_truthy (bundle_period_setting env settings)
             \<and> period_recognised env (JStr ''daily'')"
  with assms(4) have res: "resolve_bundling (bundling_enabled_setting env settings ?nt)
            (bundle_period_setting env settings) (js_includes (bd_types tp) ?nt)
          = (JStr ''yes'', JStr ''daily'')"
    by (simp add: resolve_bundling_def)
  from h have del: "deliver env accepts notification m reference referenceId (JStr ''yes'')
             (JStr ''daily'')
          = ([AddEvent \<lparr>ev_data = m, ev_period = JStr ''daily'',
                         ev_userId = nt_userId notification, ev_eventType = EMAIL_GENERAL env,
                         ev_reference = reference, ev_referenceId = referenceId\<rparr>], Inr ())"
    by (simp add: deliver_def)
  from handler_delivers_outbound [OF assms(1) assms(2) assms(3) res del]
  show "outcome ?run = Inr ()" by simp
  from handler_delivers_outbound [OF assms(1) assms(2) assms(3) res del]
  show "filter outbound (trace ?run)
        = [AddEvent \<lparr>ev_data = m, ev_period = JStr ''daily'',
                     ev_userId = nt_userId notification, ev_eventType = EMAIL_GENERAL env,
                     ev_reference = reference, ev_referenceId = referenceId\<rparr>]" by simp
next
  let ?nt = "notification_type notification topicName"
  let ?run = "handler env (Inr settings) (Inr (user # others)) accepts topicName messageJSON
                notification"
  assume h: "js_includes (bd_types tp) ?nt \<and> group_defined (EVENT_BUNDLES env) \<lparr>ev_data = m\<rparr>"
  then have res: "resolve_bundling (bundling_enabled_setting env settings ?nt)
            (bundle_period_setting env settings) (js_includes (bd_types tp) ?nt)
          = (bundling_enabled_setting env settings ?nt, bundle_period_setting env settings)"
    by (simp add: resolve_bundling_def)
  from assms(4) have unset: "\<not> (bundling_enabled_setting env settings ?nt = JStr ''yes''
                      \<and> js_truthy (bundle_period_setting env settings))"
    by auto
  from h wrapIndividualNotification_defined obtain w
    where w: "wrapIndividualNotification env \<lparr>ev_data = m\<rparr> = Inr w" by blast
  note del = deliver_immediate [OF unset w, of accepts notification reference referenceId]
  show "\<exists>w. wrapIndividualNotification env \<lparr>ev_data = m\<rparr> = Inr w
          \<and> filter outbound (trace ?run) = [PostEvent (immediate_event env m w)]
          \<and> outcome ?run = (if accepts (immediate_event env m w) then Inr () else Inl Rejected)"
  proof (cases "accepts (immediate_event env m w)")
    case True
    with del have "deliver env accepts notification m reference referenceId
                     (bundling_enabled_setting env settings ?nt)
                     (bundle_period_setting env settings)
                   = ([ConsoleLog, PostEvent (immediate_event env m w),
                       Log Info ''Successfully sent''], Inr ())" by simp
    from handler_delivers_outbound [OF assms(1) assms(2) assms(3) res this] w True
    show ?thesis by auto
  next
    case False
    with del have "deliver env accepts notification m reference referenceId
                     (bundling_enabled_setting env settings ?nt)
                     (bundle_period_setting env settings)
                   = ([ConsoleLog, PostEvent (immediate_event env m w)], Inl Rejected)" by simp
    from handler_delivers_outbound [OF assms(1) assms(2) assms(3) res this] w False
    show ?thesis by auto
  qed
qed

text \<open>
  With no settings at all, \<^verbatim>\<open>project.active\<close> is scheduled daily and \<^verbatim>\<open>post.created\<close>, a
  messaging event, is posted at once.
\<close>

theorem handler_default_bundling_witness:
  "\<not> js_includes (bd_types demo_topics) (notification_type demo_notification ''project.active'')
   \<and> \<not> js_truthy (bundling_enabled_setting demo_env settings_none
                      (notification_type demo_notification ''project.active''))
   \<and> \<not> js_truthy (bundle_period_setting demo_env settings_none)
   \<and> period_recognised demo_env (JStr ''daily'')
   \<and> outcome (demo_run settings_none ''project.active'') = Inr ()
   \<and> filter outbound (trace (demo_run settings_none ''project.active''))
     = [AddEvent \<lparr>ev_data = fst (demo_built ''project.active'' False),
                  ev_period = JStr ''daily'', ev_userId = JNum 7,
                  ev_eventType = ''email.general'', ev_reference = ''project'',
                  ev_referenceId = JNum 5\<rparr>]
   \<and> js_includes (bd_types demo_topics) (notification_type demo_notification ''post.created'')
   \<and> group_defined (EVENT_BUNDLES demo_env) \<lparr>ev_data = fst (demo_built ''post.created'' True)\<rparr>
   \<and> (\<exists>w. wrapIndividualNotification demo_env \<lparr>ev_data = fst (demo_built ''post.created'' True)\<rparr>
            = Inr w
          \<and> filter outbound (trace (demo_run settings_none ''post.created''))
            = [PostEvent (immediate_event demo_env (fst (demo_built ''post.created'' True)) w)]
          \<and> outcome (demo_run settings_none ''post.created'') = Inr ())"
proof -
  let ?nt = "notification_type demo_notification ''project.active''"
  let ?nt' = "notification_type demo_notification ''post.created''"
  have a1: "\<not> email_disabled demo_env settings_none ?nt" by code_simp
  have a3: "build_message demo_env demo_user demo_message demo_notification ?nt
              (js_includes (bd_types demo_topics) ?nt)
            = (fst (demo_built ''project.active'' False), ''project'', JNum 5)"
    by code_simp
  have a4: "\<not> js_truthy (bundling_enabled_setting demo_env settings_none ?nt)" by code_simp
  have a5: "\<not> js_includes (bd_types demo_topics) ?nt" by code_simp
  have a6: "\<not> js_truthy (bundle_period_setting demo_env settings_none)" by code_simp
  have a7: "period_recognised demo_env (JStr ''daily'')" by code_simp
  have b1: "\<not> email_disabled demo_env settings_none ?nt'" by code_simp
  have b3: "build_message demo_env demo_user demo_message demo_notification ?nt'
              (js_includes (bd_types demo_topics) ?nt')
            = (fst (demo_built ''post.created'' True),
               fst (snd (demo_built ''post.created'' True)),
               snd (snd (demo_built ''post.created'' True)))"
    by code_simp
  have b4: "\<not> js_truthy (bundling_enabled_setting demo_env settings_none ?nt')" by code_simp
  have b5: "js_includes (bd_types demo_topics) ?nt'" by code_simp
  have b6: "group_defined (EVENT_BUNDLES demo_env)
              \<lparr>ev_data = fst (demo_built ''post.created'' True)\<rparr>" by code_simp
  from handler_default_bundling [OF a1 demo_tp a3 a4, of "[]" "\<lambda>ev. True"] a5 a6 a7
  have a: "outcome (demo_run settings_none ''project.active'') = Inr ()
     \<and> filter outbound (trace (demo_run settings_none ''project.active''))
       = [AddEvent \<lparr>ev_data = fst (demo_built ''project.active'' False),
                  ev_period = JStr ''daily'', ev_userId = JNum 7,
                  ev_eventType = ''email.general'', ev_reference = ''project'',
                  ev_referenceId = JNum 5\<rparr>]"
    by (simp add: demo_run_def demo_notification_def demo_env_def)
  from handler_default_bundling [OF b1 demo_tp b3 b4, of "[]" "\<lambda>ev. True"] b5 b6
  have b: "\<exists>w. wrapIndividualNotification demo_env
                  \<lparr>ev_data = fst (demo_built ''post.created'' True)\<rparr> = Inr w
          \<and> filter outbound (trace (demo_run settings_none ''post.created''))
            = [PostEvent (immediate_event demo_env (fst (demo_built ''post.created'' True)) w)]
          \<and> outcome (demo_run settings_none ''post.created'') = Inr ()"
    by (simp add: demo_run_def)
  from a5 a4 a6 a7 a b5 b6 b show ?thesis by (intro conjI) simp_all
qed

text \<open>
  Claim C8, as amended: when bundling resolves to enabled and the resolved period is set
  (truthy) but not recognised, the configuration error is thrown inside the handler's
  coroutine: the call returns a promise that rejects with the configuration error, and
  the handler has neither added a scheduled event nor posted a bus event.
\<close>

theorem handler_unrecognised_period:
  assumes "\<not> email_disabled env settings (notification_type notification topicName)"
      and "map_of (EVENT_BUNDLES env) ''TOPICS_AND_POSTS'' = Some tp"
      and "resolve_bundling
             (bundling_enabled_setting env settings (notification_type notification topicName))
             (bundle_period_setting env settings)
             (js_includes (bd_types tp) (notification_type notification topicName))
           = (JStr ''yes'', bundlePeriod)"
      and "js_truthy bundlePeriod"
      and "\<not> period_recognised env bundlePeriod"
  shows "outcome (handler env (Inr settings) (Inr (user # others)) accepts topicName
                    messageJSON notification) = Inl ConfigError
         \<and> handler_call env (Inr settings) (Inr (user # others)) accepts topicName
              messageJSON notification = Returns_promise (Inl ConfigError)
         \<and> filter outbound
              (trace (handler env (Inr settings) (Inr (user # others)) accepts topicName
                        messageJSON notification)) = []"
proof -
  let ?nt = "notification_type notification topicName"
  obtain m reference referenceId
    where b: "build_message env user messageJSON notification ?nt
                (js_includes (bd_types tp) ?nt) = (m, reference, referenceId)"
    by (rule prod_cases3)
  from assms(4) assms(5)
  have "deliver env accepts notification m reference referenceId (JStr ''yes'') bundlePeriod
        = ([], Inl ConfigError)"
    by (simp add: deliver_def)
  from handler_delivers_outbound [OF assms(1) assms(2) b assms(3) this]
  show ?thesis by (simp add: handler_call_def)
qed

text \<open>
  The period \<^verbatim>\<open>monthly\<close> is not in the example table.
\<close>

theorem handler_unrecognised_period_witness:
  "resolve_bundling
     (bundling_enabled_setting demo_env settings_monthly
        (notification_type demo_notification ''project.active''))
     (bundle_period_setting demo_env settings_monthly)
     (js_includes (bd_types demo_topics) (notification_type demo_notification ''project.active''))
   = (JStr ''yes'', JStr ''monthly'')
   \<and> js_truthy (JStr ''monthly'')
   \<and> \<not> period_recognised demo_env (JStr ''monthly'')
   \<and> outcome (demo_run settings_monthly ''project.active'') = Inl ConfigError
   \<and> handler_call demo_env (Inr settings_monthly) (Inr [demo_user]) (\<lambda>ev. True)
        ''project.active'' demo_message demo_notification
      = Returns_promise (Inl ConfigError)
   \<and> filter outbound (trace (demo_run settings_monthly ''project.active'')) = []"
proof -
  let ?nt = "notification_type demo_notification ''project.active''"
  have a1: "\<not> email_disabled demo_env settings_monthly ?nt" by code_simp
  have a3: "resolve_bundling (bundling_enabled_setting demo_env settings_monthly ?nt)
              (bundle_period_setting demo_env settings_monthly)
              (js_includes (bd_types demo_topics) ?nt)
            = (JStr ''yes'', JStr ''monthly'')" by code_simp
  have a4: "js_truthy (JStr ''monthly'')" by simp
  have a5: "\<not> period_recognised demo_env (JStr ''monthly'')" by code_simp
  from handler_unrecognised_period [OF a1 demo_tp a3 a4 a5, of demo_user "[]" "\<lambda>ev. True"
         demo_message]
       a3 a4 a5
  show ?thesis by (simp add: demo_run_def)
qed

text \<open>
  Claim C8 as stated fails at two inputs. A period that is not set: bundling explicitly
  enabled and no bundle period resolve to enabled with a period that is not recognised,
  and at this input the handler ends normally and has posted the event. And the way the
  error arrives: with the unrecognised period \<^verbatim>\<open>monthly\<close> the call does not throw the
  configuration error, it returns a promise that rejects with it.
\<close>

theorem handler_configuration_error_counterexample:
  "fst (resolve_bundling
          (bundling_enabled_setting demo_env settings_bundling_on (JStr ''project.active''))
          (bundle_period_setting demo_env settings_bundling_on) False) = JStr ''yes''
   \<and> \<not> period_recognised demo_env
          (snd (resolve_bundling
                  (bundling_enabled_setting demo_env settings_bundling_on
                     (JStr ''project.active''))
                  (bundle_period_setting demo_env settings_bundling_on) False))
   \<and> outcome (demo_run settings_bundling_on ''project.active'') = Inr ()
   \<and> length (posts_of (trace (demo_run settings_bundling_on ''project.active''))) = 1
   \<and> resolve_bundling
        (bundling_enabled_setting demo_env settings_monthly (JStr ''project.active''))
        (bundle_period_setting demo_env settings_monthly) False
      = (JStr ''yes'', JStr ''monthly'')
   \<and> \<not> period_recognised demo_env (JStr ''monthly'')
   \<and> handler_call demo_env (Inr settings_monthly) (Inr [demo_user]) (\<lambda>ev. True)
        ''project.active'' demo_message demo_notification
      \<noteq> Throws ConfigError
   \<and> handler_call demo_env (Inr settings_monthly) (Inr [demo_user]) (\<lambda>ev. True)
        ''project.active'' demo_message demo_notification
      = Returns_promise (Inl ConfigError)"
  by code_simp

text \<open>
  Claim C9: for a user found whose email is missing, on the immediate path (and with the
  event's classification key naming a definition), the handler logs the missing email and
  still posts one bus event; its recipient is the development address when development
  mode is on and the missing email otherwise. The run ends as the post does.
\<close>

theorem handler_missing_email:
  assumes "\<not> email_disabled env settings (notification_type notification topicName)"
      and "map_of (EVENT_BUNDLES env) ''TOPICS_AND_POSTS'' = Some tp"
      and "build_message env user messageJSON notification
             (notification_type notification topicName)
             (js_includes (bd_types tp) (notification_type notification topicName))
           = (m, reference, referenceId)"
      and "resolve_bundling
             (bundling_enabled_setting env settings (notification_type notification topicName))
             (bundle_period_setting env settings)
             (js_includes (bd_types tp) (notification_type notification topicName))
           = (bundlingEnabled, bundlePeriod)"
      and "\<not> (bundlingEnabled = JStr ''yes'' \<and> js_truthy bundlePeriod)"
      and "group_defined (EVENT_BUNDLES env) \<lparr>ev_data = m\<rparr>"
      and "\<not> js_truthy (usr_email user)"
  shows "Log Error ''Email not received for user''
           \<in> set (trace (handler env (Inr settings) (Inr (user # others)) accepts topicName
                           messageJSON notification))
         \<and> (\<exists>w. wrapIndividualNotification env \<lparr>ev_data = m\<rparr> = Inr w
                \<and> filter outbound
                    (trace (handler env (Inr settings) (Inr (user # others)) accepts
                              topicName messageJSON notification))
                  = [PostEvent (immediate_event env m w)]
                \<and> msg_recipients (bus_payload (immediate_event env m w))
                  = [if ENABLE_DEV_MODE env = JStr ''true'' then DEV_MODE_EMAIL env
                     else usr_email user]
                \<and> outcome (handler env (Inr settings) (Inr (user # others)) accepts
                              topicName messageJSON notification)
                  = (if accepts (immediate_event env m w) then Inr () else Inl Rejected))"
proof -
  let ?run = "handler env (Inr settings) (Inr (user # others)) accepts topicName messageJSON
                notification"
  from assms(6) wrapIndividualNotification_defined obtain w
    where w: "wrapIndividualNotification env \<lparr>ev_data = m\<rparr> = Inr w" by blast
  note del = deliver_immediate [OF assms(5) w, of accepts notification reference referenceId]
  obtain effects out
    where d: "deliver env accepts notification m reference referenceId bundlingEnabled
                bundlePeriod = (effects, out)"
    by (rule prod.exhaust)
  note run = handler_delivers_outbound [OF assms(1) assms(2) assms(3) assms(4) d]
  from assms(7) have "Log Error ''Email not received for user'' \<in> set (email_log user)"
    by (simp add: email_log_def)
  with run have logged: "Log Error ''Email not received for user'' \<in> set (trace ?run)"
    by blast
  from assms(3) have "msg_recipients m = [recipient env user]"
    by (auto simp: build_message_def Let_def split: if_splits)
  then have rcpt: "msg_recipients (bus_payload (immediate_event env m w))
                   = [if ENABLE_DEV_MODE env = JStr ''true'' then DEV_MODE_EMAIL env
                      else usr_email user]"
    by (simp add: immediate_event_def recipient_def)
  from del d have "filter outbound effects = [PostEvent (immediate_event env m w)]"
    and "out = (if accepts (immediate_event env m w) then Inr () else Inl Rejected)"
    by (auto split: if_splits)
  with run have "filter outbound (trace ?run) = [PostEvent (immediate_event env m w)]"
    and "outcome ?run = (if accepts (immediate_event env m w) then Inr () else Inl Rejected)"
    by simp_all
  with logged w rcpt show ?thesis by blast
qed

text \<open>
  The example user has no email and development mode is off: the event is posted with
  the recipient \<^verbatim>\<open>undefined\<close>.
\<close>

theorem handler_missing_email_witness:
  "\<not> js_truthy (usr_email demo_user)
   \<and> group_defined (EVENT_BUNDLES demo_env) \<lparr>ev_data = fst (demo_built ''post.created'' True)\<rparr>
   \<and> Log Error ''Email not received for user''
       \<in> set (trace (demo_run settings_none ''post.created''))
   \<and> (\<exists>w. wrapIndividualNotification demo_env \<lparr>ev_data = fst (demo_built ''post.created'' True)\<rparr>
            = Inr w
          \<and> filter outbound (trace (demo_run settings_none ''post.created''))
            = [PostEvent (immediate_event demo_env (fst (demo_built ''post.created'' True)) w)]
          \<and> msg_recipients
               (bus_payload (immediate_event demo_env (fst (demo_built ''post.created'' True)) w))
            = [JUndefined]
          \<and> outcome (demo_run settings_none ''post.created'') = Inr ())"
proof -
  let ?nt' = "notification_type demo_notification ''post.created''"
  have b1: "\<not> email_disabled demo_env settings_none ?nt'" by code_simp
  have b3: "build_message demo_env demo_user demo_message demo_notification ?nt'
              (js_includes (bd_types demo_topics) ?nt')
            = (fst (demo_built ''post.created'' True),
               fst (snd (demo_built ''post.created'' True)),
               snd (snd (demo_built ''post.created'' True)))"
    by code_simp
  have b4: "resolve_bundling (bundling_enabled_setting demo_env settings_none ?nt')
              (bundle_period_setting demo_env settings_none)
              (js_includes (bd_types demo_topics) ?nt')
            = (JUndefined, JUndefined)" by code_simp
  have b5: "\<not> (JUndefined = JStr ''yes'' \<and> js_truthy JUndefined)" by simp
  have b6: "group_defined (EVENT_BUNDLES demo_env)
              \<lparr>ev_data = fst (demo_built ''post.created'' True)\<rparr>" by code_simp
  have b7: "\<not> js_truthy (usr_email demo_user)" by code_simp
  have dev: "ENABLE_DEV_MODE demo_env \<noteq> JStr ''true''" "usr_email demo_user = JUndefined"
    by (simp_all add: demo_env_def demo_user_def)
  from handler_missing_email [OF b1 demo_tp b3 b4 b5 b6 b7, of "[]" "\<lambda>ev. True"] dev
  have "Log Error ''Email not received for user''
       \<in> set (trace (demo_run settings_none ''post.created''))
   \<and> (\<exists>w. wrapIndividualNotification demo_env \<lparr>ev_data = fst (demo_built ''post.created'' True)\<rparr>
            = Inr w
          \<and> filter outbound (trace (demo_run settings_none ''post.created''))
            = [PostEvent (immediate_event demo_env (fst (demo_built ''post.created'' True)) w)]
          \<and> msg_recipients
               (bus_payload (immediate_event demo_env (fst (demo_built ''post.created'' True)) w))
            = [JUndefined]
          \<and> outcome (demo_run settings_none ''post.created'') = Inr ())"
    by (simp add: demo_run_def)
  with b6 b7 show ?thesis by simp
qed

text \<open>
  Claim C10: when the settings hold \<^verbatim>\<open>enabled = 'no'\<close> for the email service under the
  event's notification type, the handler fetches the settings, writes one log line and
  returns. It posts no bus event and adds no scheduled event, whatever the users lookup,
  the bus, the message and the bundling settings are.
\<close>

theorem handler_email_disabled:
  assumes "map_of (st_notifications settings)
             (js_to_string (notification_type notification topicName)) = Some services"
      and "map_of services (SETTINGS_EMAIL_SERVICE_ID env) = Some s"
      and "obj_get s ''enabled'' = JStr ''no''"
  shows "handler env (Inr settings) usersResult accepts topicName messageJSON notification
           = \<lparr>trace = [GetSettings (nt_userId notification),
                        Log Verbose ''Notification not sent due to settings''],
              outcome = Inr ()\<rparr>
         \<and> filter outbound
              (trace (handler env (Inr settings) usersResult accepts topicName messageJSON
                        notification)) = []"
  using assms by (simp add: handler_def email_disabled_def Let_def)

text \<open>The example settings turn email off for \<^verbatim>\<open>project.active\<close>.\<close>

theorem handler_email_disabled_witness:
  "map_of (st_notifications settings_email_off)
     (js_to_string (notification_type demo_notification ''project.active''))
     = Some [(''email'', [(''enabled'', JStr ''no'')])]
   \<and> map_of [(''email'', [(''enabled'', JStr ''no'')])] (SETTINGS_EMAIL_SERVICE_ID demo_env)
       = Some [(''enabled'', JStr ''no'')]
   \<and> obj_get [(''enabled'', JStr ''no'')] ''enabled'' = JStr ''no''
   \<and> handler demo_env (Inr settings_email_off) (Inr [demo_user]) (\<lambda>ev. True)
         ''project.active'' [(''projectId'', JNum 5)] demo_notification
       = \<lparr>trace = [GetSettings (JNum 7), Log Verbose ''Notification not sent due to settings''],
          outcome = Inr ()\<rparr>"
proof -
  have h1: "map_of (st_notifications settings_email_off)
              (js_to_string (notification_type demo_notification ''project.active''))
            = Some [(''email'', [(''enabled'', JStr ''no'')])]"
    by (simp add: settings_email_off_def notification_type_def demo_notification_def)
  have h2: "map_of [(''email'', [(''enabled'', JStr ''no'')])] (SETTINGS_EMAIL_SERVICE_ID demo_env)
            = Some [(''enabled'', JStr ''no'')]"
    by (simp add: demo_env_def)
  have h3: "obj_get [(''enabled'', JStr ''no'')] ''enabled'' = JStr ''no''"
    by (simp add: obj_get_def)
  from handler_email_disabled [OF h1 h2 h3] h1 h2 h3 show ?thesis
    by (simp add: demo_notification_def)
qed

end
